theory Spec2Isabelle
  imports Main "HOL-Library.Sublist"
begin

section \<open>Python values used by \<open>download_pre_v1_data.py\<close>\<close>

text \<open>
  The script is Python. Strings are modelled as \<open>string\<close> (ASCII text: the file names,
  header values and object keys of the archive), exceptions as values of \<open>py_exception\<close>
  carried on the left of a sum. \<open>External\<close> is an exception raised by a service the script
  calls (S3, the file system); it carries the text that \<open>str(sys.exc_info())\<close> renders for
  it, which is all that \<open>thaw_files\<close> inspects.
\<close>

datatype py_exception =
    IndexError
  | KeyError string
  | ValueError
  | AttributeError
  | TypeError
  | External string

text \<open>\<open>sub in s\<close> on strings.\<close>

fun str_contains :: "string \<Rightarrow> string \<Rightarrow> bool" where
  "str_contains sub [] = (sub = [])"
| "str_contains sub (c # cs) = (prefix sub (c # cs) \<or> str_contains sub cs)"

text \<open>
  \<open>s.replace(old, new)\<close>: the occurrences of \<open>old\<close> are found from the left and do not
  overlap. For an empty \<open>old\<close> Python inserts \<open>new\<close> before every character and at the end.
\<close>

fun py_replace :: "string \<Rightarrow> string \<Rightarrow> string \<Rightarrow> string" where
  "py_replace old new s =
     (if old = [] then new @ concat (map (\<lambda>c. c # new) s)
      else (case s of
              [] \<Rightarrow> []
            | c # cs \<Rightarrow>
                if prefix old s then new @ py_replace old new (drop (length old) s)
                else c # py_replace old new cs))"

declare py_replace.simps [simp del]

text \<open>
  \<open>s.split(sep)\<close> for a separator of one character, the only use the script makes of it
  (\<open>'-'\<close> and \<open>'.'\<close>). \<open>cur\<close> is the segment being read.
\<close>

fun split_from :: "char \<Rightarrow> string \<Rightarrow> string \<Rightarrow> string list" where
  "split_from sep cur [] = [cur]"
| "split_from sep cur (c # cs) =
     (if c = sep then cur # split_from sep [] cs else split_from sep (cur @ [c]) cs)"

definition py_split :: "char \<Rightarrow> string \<Rightarrow> string list" where
  "py_split sep s = split_from sep [] s"

text \<open>\<open>xs[i]\<close>: a negative index counts from the end, an index out of range raises.\<close>

definition py_getitem :: "'a list \<Rightarrow> int \<Rightarrow> py_exception + 'a" where
  "py_getitem xs i =
     (let j = (if i < 0 then i + int (length xs) else i)
      in if j < 0 \<or> int (length xs) \<le> j then Inl IndexError else Inr (xs ! nat j))"

text \<open>\<open>d[k]\<close> on a dictionary whose keys and values are strings.\<close>

definition dict_get :: "(string \<times> string) list \<Rightarrow> string \<Rightarrow> py_exception + string" where
  "dict_get d k = (case map_of d k of None \<Rightarrow> Inl (KeyError k) | Some v \<Rightarrow> Inr v)"

section \<open>Key resolver: \<open>make_s3_prefix_from_filename\<close>\<close>

text \<open>
  \<open>filename.replace('.fits.fz', '.fits').replace('.fits', '.fits.fz')\<close>, the value of the
  local \<open>compressed_filename\<close>.
\<close>

definition compressed_filename :: "string \<Rightarrow> string" where
  "compressed_filename filename =
     py_replace ''.fits'' ''.fits.fz'' (py_replace ''.fits.fz'' ''.fits'' filename)"

text \<open>
  \<open>filename[0:3]\<close> never raises (a slice is cut to the string); \<open>filename.split('-')[1]\<close>
  and \<open>[2]\<close> raise \<open>IndexError\<close> on a name with fewer hyphens.
\<close>

definition make_s3_prefix_from_filename :: "string \<Rightarrow> py_exception + string" where
  "make_s3_prefix_from_filename filename =
     (let site = take 3 filename in
      case py_getitem (py_split CHR ''-'' filename) 1 of
        Inl e \<Rightarrow> Inl e
      | Inr instrument \<Rightarrow>
          (case py_getitem (py_split CHR ''-'' filename) 2 of
             Inl e \<Rightarrow> Inl e
           | Inr dayobs \<Rightarrow>
               Inr (site @ ''/'' @ instrument @ ''/'' @ dayobs @ ''/raw/''
                    @ compressed_filename filename)))"

section \<open>Timestamps: \<open>datetime.strptime\<close>, \<open>strftime\<close> and \<open>parse_date_obs\<close>\<close>

record datetime =
  year :: nat
  month :: nat
  day :: nat
  hour :: nat
  minute :: nat
  second :: nat
  microsecond :: nat

text \<open>
  \<open>strptime\<close> turns the format into a regular expression, one group per directive, and
  matches it at the start of the text with backtracking. A directive is a list of
  alternatives in the order of the library's pattern, an alternative a list of character
  classes:
  \<open>%Y\<close> is \<open>\d\d\d\d\<close>, \<open>%m\<close> is \<open>1[0-2]|0[1-9]|[1-9]\<close>,
  \<open>%d\<close> is \<open>3[0-1]|[1-2]\d|0[1-9]|[1-9]| [1-9]\<close>, \<open>%H\<close> is \<open>2[0-3]|[0-1]\d|\d\<close>,
  \<open>%M\<close> is \<open>[0-5]\d|\d\<close>, \<open>%S\<close> is \<open>6[0-1]|[0-5]\d|\d\<close> and \<open>%f\<close> is the greedy
  \<open>[0-9]{1,6}\<close>. These seven are the directives of the script's two formats; any other
  directive has no alternative here and matches nothing.
\<close>

datatype fmt_item = Directive char | Literal char

fun parse_format :: "string \<Rightarrow> fmt_item list" where
  "parse_format [] = []"
| "parse_format [c] = [Literal c]"
| "parse_format (c # d # rest) =
     (if c = CHR ''%'' then Directive d # parse_format rest
      else Literal c # parse_format (d # rest))"

definition digits :: string where
  "digits = ''0123456789''"

definition nonzero :: string where
  "nonzero = ''123456789''"

definition directive_regex :: "char \<Rightarrow> string list list" where
  "directive_regex d =
     (if d = CHR ''Y'' then [[digits, digits, digits, digits]]
      else if d = CHR ''m'' then [[''1'', ''012''], [''0'', nonzero], [nonzero]]
      else if d = CHR ''d'' then
        [[''3'', ''01''], [''12'', digits], [''0'', nonzero], [nonzero], ['' '', nonzero]]
      else if d = CHR ''H'' then [[''2'', ''0123''], [''01'', digits], [digits]]
      else if d = CHR ''M'' then [[''012345'', digits], [digits]]
      else if d = CHR ''S'' then [[''6'', ''01''], [''012345'', digits], [digits]]
      else if d = CHR ''f'' then map (\<lambda>n. replicate n digits) [6, 5, 4, 3, 2, 1]
      else [])"

fun match_classes :: "string list \<Rightarrow> string \<Rightarrow> (string \<times> string) option" where
  "match_classes [] s = Some ([], s)"
| "match_classes (cls # rest) [] = None"
| "match_classes (cls # rest) (c # cs) =
     (if c \<in> set cls
      then (case match_classes rest cs of None \<Rightarrow> None | Some (m, r) \<Rightarrow> Some (c # m, r))
      else None)"

text \<open>The pattern is compiled with \<open>IGNORECASE\<close>: a literal letter matches either case.\<close>

definition ascii_lower :: "char \<Rightarrow> char" where
  "ascii_lower c =
     (if 65 \<le> (of_char c :: nat) \<and> (of_char c :: nat) \<le> 90
      then char_of ((of_char c :: nat) + 32) else c)"

text \<open>
  All the ways the format matches at the start of the text, in the order backtracking
  tries them, each with the text of its groups and the text left over.
\<close>

fun match_format :: "fmt_item list \<Rightarrow> string \<Rightarrow> ((char \<times> string) list \<times> string) list" where
  "match_format [] s = [([], s)]"
| "match_format (Literal l # fmt) s =
     (case s of
        [] \<Rightarrow> []
      | c # cs \<Rightarrow> if ascii_lower c = ascii_lower l then match_format fmt cs else [])"
| "match_format (Directive d # fmt) s =
     concat (map (\<lambda>alt.
        case match_classes alt s of
          None \<Rightarrow> []
        | Some (m, r) \<Rightarrow> map (\<lambda>(groups, left). ((d, m) # groups, left)) (match_format fmt r))
      (directive_regex d))"

text \<open>\<open>int(text)\<close> on the text of a group: digits, after a blank for a day like \<open>' 7'\<close>.\<close>

definition digit_value :: "char \<Rightarrow> nat" where
  "digit_value c = of_char c - 48"

definition py_int :: "string \<Rightarrow> nat" where
  "py_int s = foldl (\<lambda>n c. 10 * n + digit_value c) 0 (filter (\<lambda>c. c \<noteq> CHR '' '') s)"

definition group_value :: "(char \<times> string) list \<Rightarrow> char \<Rightarrow> nat \<Rightarrow> nat" where
  "group_value groups d dflt = (case map_of groups d of None \<Rightarrow> dflt | Some m \<Rightarrow> py_int m)"

definition is_leap :: "nat \<Rightarrow> bool" where
  "is_leap y \<longleftrightarrow> y mod 4 = 0 \<and> (y mod 100 \<noteq> 0 \<or> y mod 400 = 0)"

definition days_in_month :: "nat \<Rightarrow> nat \<Rightarrow> nat" where
  "days_in_month y m =
     (if m = 2 then (if is_leap y then 29 else 28)
      else if m = 4 \<or> m = 6 \<or> m = 9 \<or> m = 11 then 30 else 31)"

text \<open>
  \<open>datetime.strptime(data_string, format)\<close>: no match, text left after the first match,
  and field values that are not a date or a time of day (year 0, 30 February, second 60)
  all raise \<open>ValueError\<close>. A field the format lacks has the library's default; the
  fraction is padded on the right to six digits.
\<close>

definition strptime :: "string \<Rightarrow> string \<Rightarrow> py_exception + datetime" where
  "strptime data_string format =
     (case match_format (parse_format format) data_string of
        [] \<Rightarrow> Inl ValueError
      | (groups, left) # _ \<Rightarrow>
          if left \<noteq> [] then Inl ValueError
          else
            let y = group_value groups CHR ''Y'' 1900;
                mo = group_value groups CHR ''m'' 1;
                d = group_value groups CHR ''d'' 1;
                h = group_value groups CHR ''H'' 0;
                mi = group_value groups CHR ''M'' 0;
                sec = group_value groups CHR ''S'' 0;
                frac = (case map_of groups CHR ''f'' of
                          None \<Rightarrow> 0
                        | Some m \<Rightarrow> py_int (m @ replicate (6 - length m) CHR ''0''))
            in if y < 1 \<or> days_in_month y mo < d \<or> 59 < sec then Inl ValueError
               else Inr \<lparr>year = y, month = mo, day = d, hour = h, minute = mi,
                         second = sec, microsecond = frac\<rparr>)"

text \<open>
  \<open>parse_date_obs\<close>, as the source has it: the sentinel, the date alone, and the date with
  a time whose fraction is padded (\<open>padded_date_obs\<close> is the text after the padding).
  \<open>(6 - n) * '0'\<close> is empty for \<open>n\<close> above six;
  \<open>list[-1]\<close> is the last segment, and \<open>split\<close> never returns an empty list.
\<close>

definition padded_date_obs :: "string \<Rightarrow> string" where
  "padded_date_obs date_obs_string =
     (let date_fractional_seconds_list = py_split CHR ''.'' date_obs_string
      in if 1 < length date_fractional_seconds_list
         then date_obs_string
              @ replicate (nat (6 - int (length (last date_fractional_seconds_list))))
                  CHR ''0''
         else date_obs_string @ ''.000000'')"

definition parse_date_obs :: "string \<Rightarrow> py_exception + datetime option" where
  "parse_date_obs date_obs_string =
     (if date_obs_string = ''N/A'' then Inr None
      else if \<not> str_contains ''T'' date_obs_string then
        (case strptime date_obs_string ''%Y-%m-%d'' of
           Inl e \<Rightarrow> Inl e | Inr dt \<Rightarrow> Inr (Some dt))
      else
        (case strptime (padded_date_obs date_obs_string) ''%Y-%m-%dT%H:%M:%S.%f'' of
           Inl e \<Rightarrow> Inl e | Inr dt \<Rightarrow> Inr (Some dt)))"

text \<open>Decimal text of a number, and the same padded with zeros on the left.\<close>

fun str_nat :: "nat \<Rightarrow> string" where
  "str_nat n =
     (if n < 10 then [char_of (48 + n)]
      else str_nat (n div 10) @ [char_of (48 + n mod 10)])"

declare str_nat.simps [simp del]

definition str_int :: "int \<Rightarrow> string" where
  "str_int i = (if i < 0 then CHR ''-'' # str_nat (nat (- i)) else str_nat (nat i))"

definition zero_pad :: "nat \<Rightarrow> nat \<Rightarrow> string" where
  "zero_pad width n = replicate (width - length (str_nat n)) CHR ''0'' @ str_nat n"

text \<open>
  \<open>dt.strftime(format)\<close> for the directives above: the year on four digits, the
  microseconds on six, the other fields on two. Another directive is left as it is
  written.
\<close>

definition strftime_item :: "datetime \<Rightarrow> fmt_item \<Rightarrow> string" where
  "strftime_item dt item =
     (case item of
        Literal c \<Rightarrow> [c]
      | Directive d \<Rightarrow>
          if d = CHR ''Y'' then zero_pad 4 (year dt)
          else if d = CHR ''m'' then zero_pad 2 (month dt)
          else if d = CHR ''d'' then zero_pad 2 (day dt)
          else if d = CHR ''H'' then zero_pad 2 (hour dt)
          else if d = CHR ''M'' then zero_pad 2 (minute dt)
          else if d = CHR ''S'' then zero_pad 2 (second dt)
          else if d = CHR ''f'' then zero_pad 6 (microsecond dt)
          else [CHR ''%'', d])"

definition strftime :: "datetime \<Rightarrow> string \<Rightarrow> string" where
  "strftime dt format = concat (map (strftime_item dt) (parse_format format))"


section \<open>The services the script calls, and what it does to them\<close>

text \<open>
  A query body is a Python dictionary literal; \<open>json\<close> holds it as written. \<open>JDec m e\<close> is
  the decimal \<open>m / 10^e\<close> (the decay \<open>0.999\<close>).
\<close>

datatype json =
    JStr string
  | JInt int
  | JDec int nat
  | JObj "(string \<times> json) list"
  | JList "json list"

text \<open>
  A metadata record is the \<open>_source\<close> dictionary of a hit, header keyword to value.
  \<open>search_response\<close> is \<open>response['hits']['hits']\<close>: \<open>None\<close>, or the list of the hits'
  records in rank order.
\<close>

type_synonym metadata = "(string \<times> string) list"

type_synonym search_response = "metadata list option"

text \<open>
  Every call that leaves the process is written to a trace, in the order it happens, with
  its arguments and with what came back. For the S3 calls and \<open>os.makedirs\<close> the last
  field is what the call raised (the text of \<open>str(sys.exc_info())\<close>), if it raised:
  \<open>RestoreObject bucket key days tier raised\<close>, \<open>HeadObject bucket key result\<close>,
  \<open>DownloadFile bucket key path raised\<close>. \<open>Print\<close> is a line on standard output,
  \<open>Sleep\<close> a \<open>time.sleep\<close> of that many seconds.
\<close>

datatype event =
    Search string json search_response
  | Print string
  | Sleep nat
  | RestoreObject string string nat string "string option"
  | HeadObject string string "string + (string \<times> string) list"
  | MakeDirs string "string option"
  | DownloadFile string string string "string option"

text \<open>
  The world outside the process (the index, the bucket, the file system, the clock) is a
  value of a type \<open>'w\<close> about which nothing is assumed; a call reads it and returns it
  changed. \<open>state\<close> pairs it with the trace.
\<close>

record 'w state =
  world :: 'w
  trace :: "event list"

definition emit :: "event \<Rightarrow> 'w state \<Rightarrow> 'w state" where
  "emit e s = s\<lparr>trace := trace s @ [e]\<rparr>"

text \<open>
  \<open>search_host.search(index=..., body=...)\<close>. The call is taken to return a response:
  a failure of the index itself is outside the script.
\<close>

type_synonym 'w search_host = "string \<Rightarrow> json \<Rightarrow> 'w \<Rightarrow> search_response \<times> 'w"

text \<open>
  The boto3 client \<open>s3\<close>. A call either raises, which is \<open>Some text\<close> with the text of
  \<open>str(sys.exc_info())\<close> (or \<open>Inl text\<close>), or returns. \<open>head_object\<close> returns the response
  dictionary, of which the script reads the \<open>Restore\<close> entry.
\<close>

record 'w s3_client =
  restore_object :: "string \<Rightarrow> string \<Rightarrow> nat \<Rightarrow> string \<Rightarrow> 'w \<Rightarrow> string option \<times> 'w"
  head_object :: "string \<Rightarrow> string \<Rightarrow> 'w \<Rightarrow> (string + (string \<times> string) list) \<times> 'w"
  download_file :: "string \<Rightarrow> string \<Rightarrow> string \<Rightarrow> 'w \<Rightarrow> string option \<times> 'w"

text \<open>
  The operating system: \<open>time.sleep\<close>, \<open>datetime.datetime.now\<close>,
  \<open>os.makedirs(path, exist_ok=True)\<close> and the reading of the frame list,
  \<open>ascii.read(path, format='no_header')['col1']\<close>.
\<close>

record 'w system =
  sleep :: "nat \<Rightarrow> 'w \<Rightarrow> 'w"
  now :: "'w \<Rightarrow> datetime"
  makedirs :: "string \<Rightarrow> 'w \<Rightarrow> string option \<times> 'w"
  read_col1 :: "string \<Rightarrow> 'w \<Rightarrow> string list"

section \<open>Metadata lookup: \<open>get_frame_metadata\<close>\<close>

text \<open>The phrase the query matches: \<open>filename.replace('.fits', '').replace('.fz', '')\<close>.\<close>

definition scrubbed_filename :: "string \<Rightarrow> string" where
  "scrubbed_filename filename = py_replace ''.fz'' '''' (py_replace ''.fits'' '''' filename)"

definition metadata_query :: "string \<Rightarrow> json" where
  "metadata_query filename =
     JObj [(''query'',
            JObj [(''match_phrase'',
                   JObj [(''filename'', JStr (scrubbed_filename filename))])])]"

text \<open>
  The hits are \<open>None\<close> or empty: the file name is printed and \<open>None\<close> returned. Otherwise
  the record of the first hit is returned.
\<close>

definition get_frame_metadata ::
  "string \<Rightarrow> 'w search_host \<Rightarrow> string \<Rightarrow> 'w state \<Rightarrow> metadata option \<times> 'w state" where
  "get_frame_metadata filename search_host index_name s =
     (let query = metadata_query filename;
          (response, w) = search_host index_name query (world s);
          s1 = emit (Search index_name query response) (s\<lparr>world := w\<rparr>)
      in case response of
           None \<Rightarrow> (None, emit (Print filename) s1)
         | Some [] \<Rightarrow> (None, emit (Print filename) s1)
         | Some (hit # _) \<Rightarrow> (Some hit, s1))"

section \<open>Calibration frame finder: \<open>get_nearest_calibration_frames\<close>\<close>

definition match_phrase :: "string \<Rightarrow> string \<Rightarrow> json" where
  "match_phrase field v = JObj [(''match_phrase'', JObj [(field, JStr v)])]"

text \<open>
  The list \<open>match_filters\<close>. The dictionary reads happen in the order of the source:
  \<open>SITEID\<close>, \<open>INSTRUME\<close>, then \<open>FILTER\<close> for a sky flat only; a missing keyword raises
  \<open>KeyError\<close>. The filters are kept as (field, value) pairs and turned into the query's
  clauses by \<open>match_phrase\<close>.
\<close>

definition match_filters :: "string \<Rightarrow> metadata \<Rightarrow> py_exception + (string \<times> string) list" where
  "match_filters obstype frame_metadata =
     (case dict_get frame_metadata ''SITEID'' of
        Inl e \<Rightarrow> Inl e
      | Inr siteid \<Rightarrow>
          (case dict_get frame_metadata ''INSTRUME'' of
             Inl e \<Rightarrow> Inl e
           | Inr instrume \<Rightarrow>
               let filters = [(''OBSTYPE'', obstype), (''SITEID'', siteid),
                              (''INSTRUME'', instrume)]
               in if obstype = ''SKYFLAT'' then
                    (case dict_get frame_metadata ''FILTER'' of
                       Inl e \<Rightarrow> Inl e
                     | Inr flt \<Rightarrow> Inr (filters @ [(''FILTER'', flt)]))
                  else Inr filters))"

text \<open>
  The time origin: \<open>parse_date_obs\<close> of the record's \<open>DATE-OBS\<close>, formatted, without its
  last three characters, followed by \<open>UTC\<close>. \<open>parse_date_obs\<close> returns \<open>None\<close> for
  \<open>N/A\<close>, and \<open>None.strftime\<close> raises \<open>AttributeError\<close>.
\<close>

definition input_date_obs :: "metadata \<Rightarrow> py_exception + string" where
  "input_date_obs frame_metadata =
     (case dict_get frame_metadata ''DATE-OBS'' of
        Inl e \<Rightarrow> Inl e
      | Inr date_obs_string \<Rightarrow>
          (case parse_date_obs date_obs_string of
             Inl e \<Rightarrow> Inl e
           | Inr None \<Rightarrow> Inl AttributeError
           | Inr (Some dt) \<Rightarrow>
               let text = strftime dt ''%Y-%m-%dT%H:%M:%S.%f''
               in Inr (take (length text - 3) text @ ''UTC'')))"

definition calibration_query :: "(string \<times> string) list \<Rightarrow> string \<Rightarrow> int \<Rightarrow> json" where
  "calibration_query filters origin n_frames =
     JObj [(''query'',
            JObj [(''function_score'',
                   JObj [(''query'',
                          JObj [(''bool'',
                                 JObj [(''must'',
                                        JList (map (\<lambda>(f, v). match_phrase f v) filters))])]),
                         (''functions'',
                          JList [JObj [(''linear'',
                                        JObj [(''DATE-OBS'',
                                               JObj [(''origin'', JStr origin),
                                                     (''scale'', JStr ''1h''),
                                                     (''decay'', JDec 999 3)])])]]),
                         (''boost_mode'', JStr ''multiply'')])]),
           (''size'', JInt n_frames)]"

text \<open>
  The comprehension over the hits: the condition \<open>'00.fits' in result['_source']['filename']\<close>
  is read first, so a hit without a file name raises \<open>KeyError\<close>.
\<close>

fun hit_filenames :: "metadata list \<Rightarrow> py_exception + string list" where
  "hit_filenames [] = Inr []"
| "hit_filenames (result # results) =
     (case dict_get result ''filename'' of
        Inl e \<Rightarrow> Inl e
      | Inr f \<Rightarrow>
          (case hit_filenames results of
             Inl e \<Rightarrow> Inl e
           | Inr fs \<Rightarrow> Inr (if str_contains ''00.fits'' f then f # fs else fs)))"

fun make_prefixes :: "string list \<Rightarrow> py_exception + string list" where
  "make_prefixes [] = Inr []"
| "make_prefixes (f # fs) =
     (case make_s3_prefix_from_filename f of
        Inl e \<Rightarrow> Inl e
      | Inr k \<Rightarrow> (case make_prefixes fs of Inl e \<Rightarrow> Inl e | Inr ks \<Rightarrow> Inr (k # ks)))"

text \<open>Iterating over hits that are \<open>None\<close> raises \<open>TypeError\<close>.\<close>

definition get_nearest_calibration_frames ::
  "string \<Rightarrow> int \<Rightarrow> string \<Rightarrow> 'w search_host \<Rightarrow> string \<Rightarrow> 'w state
   \<Rightarrow> (py_exception + string list) \<times> 'w state" where
  "get_nearest_calibration_frames obstype n_frames filename search_host search_index s =
     (case get_frame_metadata filename search_host search_index s of
        (None, s1) \<Rightarrow> (Inr [], s1)
      | (Some frame_metadata, s1) \<Rightarrow>
          (case match_filters obstype frame_metadata of
             Inl e \<Rightarrow> (Inl e, s1)
           | Inr filters \<Rightarrow>
               (case input_date_obs frame_metadata of
                  Inl e \<Rightarrow> (Inl e, s1)
                | Inr origin \<Rightarrow>
                    let query = calibration_query filters origin n_frames;
                        (response, w) = search_host search_index query (world s1);
                        s2 = emit (Search search_index query response) (s1\<lparr>world := w\<rparr>)
                    in (case response of
                          None \<Rightarrow> (Inl TypeError, s2)
                        | Some hits \<Rightarrow>
                            (case hit_filenames hits of
                               Inl e \<Rightarrow> (Inl e, s2)
                             | Inr filenames \<Rightarrow> (make_prefixes filenames, s2))))))"

section \<open>Restore orchestrator: \<open>thaw_files\<close>\<close>

text \<open>
  The \<open>for\<close> loop of \<open>thaw_files\<close>, with the list \<open>dead_references\<close> it builds. The keys
  are the elements of the Python set in the order the loop visits them. What a request
  raised is classified by the text of \<open>str(sys.exc_info())\<close>: \<open>NoSuchKey\<close> first, then
  \<open>RestoreAlreadyInProgress\<close>; anything else is raised again and ends the loop.
\<close>

fun thaw_sweep ::
  "'w s3_client \<Rightarrow> string \<Rightarrow> string \<Rightarrow> string list \<Rightarrow> string list \<Rightarrow> 'w state
   \<Rightarrow> (py_exception + string list) \<times> 'w state" where
  "thaw_sweep s3 bucket_name thaw_mode [] dead_references s = (Inr dead_references, s)"
| "thaw_sweep s3 bucket_name thaw_mode (object_key # rest) dead_references s =
     (let (raised, w) = restore_object s3 bucket_name object_key 1 thaw_mode (world s);
          s1 = emit (RestoreObject bucket_name object_key 1 thaw_mode raised) (s\<lparr>world := w\<rparr>)
      in case raised of
           None \<Rightarrow> thaw_sweep s3 bucket_name thaw_mode rest dead_references s1
         | Some exc_info \<Rightarrow>
             if str_contains ''NoSuchKey'' exc_info then
               thaw_sweep s3 bucket_name thaw_mode rest (dead_references @ [object_key])
                 (emit (Print (''Unable to thaw file '' @ object_key @ ''. No such key.'')) s1)
             else if \<not> str_contains ''RestoreAlreadyInProgress'' exc_info then
               (Inl (External exc_info), s1)
             else thaw_sweep s3 bucket_name thaw_mode rest dead_references s1)"

text \<open>
  \<open>thaw_files\<close> changes the set \<open>object_keys\<close> in place, so the model returns it: the keys
  without the dead references after a full sweep (\<open>object_keys -= set(dead_references)\<close>),
  the keys as they were when the sweep raised.
\<close>

definition thaw_files ::
  "string list \<Rightarrow> string \<Rightarrow> 'w s3_client \<Rightarrow> string \<Rightarrow> 'w state
   \<Rightarrow> (py_exception + unit) \<times> string list \<times> 'w state" where
  "thaw_files object_keys bucket_name s3 thaw_mode s =
     (case thaw_sweep s3 bucket_name thaw_mode object_keys [] s of
        (Inl e, s1) \<Rightarrow> (Inl e, object_keys, s1)
      | (Inr dead_references, s1) \<Rightarrow>
          (Inr (), filter (\<lambda>k. k \<notin> set dead_references) object_keys, s1))"

section \<open>Restore waiter: \<open>wait_for_files_to_thaw\<close>\<close>

definition ongoing_request_false :: string where
  "ongoing_request_false = ''ongoing-request='' @ [CHR 0x22] @ ''false'' @ [CHR 0x22]"

text \<open>\<open>'Restore' in response and 'ongoing-request="false"' in response['Restore']\<close>\<close>

definition restore_complete :: "(string \<times> string) list \<Rightarrow> bool" where
  "restore_complete response =
     (case map_of response ''Restore'' of
        None \<Rightarrow> False
      | Some v \<Rightarrow> str_contains ongoing_request_false v)"

text \<open>The inner \<open>for\<close> loop: one sweep over the keys, asking for those not yet restored.\<close>

fun poll_keys ::
  "'w s3_client \<Rightarrow> string \<Rightarrow> string list \<Rightarrow> string list \<Rightarrow> 'w state
   \<Rightarrow> (py_exception + string list) \<times> 'w state" where
  "poll_keys s3 bucket_name [] restored_objects s = (Inr restored_objects, s)"
| "poll_keys s3 bucket_name (object_key # rest) restored_objects s =
     (if object_key \<notin> set restored_objects then
        (let (result, w) = head_object s3 bucket_name object_key (world s);
             s1 = emit (HeadObject bucket_name object_key result) (s\<lparr>world := w\<rparr>)
         in case result of
              Inl exc_info \<Rightarrow> (Inl (External exc_info), s1)
            | Inr response \<Rightarrow>
                if restore_complete response
                then poll_keys s3 bucket_name rest (restored_objects @ [object_key]) s1
                else poll_keys s3 bucket_name rest restored_objects s1)
      else poll_keys s3 bucket_name rest restored_objects s)"

definition waiting_message :: "string \<Rightarrow> nat \<Rightarrow> nat \<Rightarrow> string" where
  "waiting_message now_text n_keys n_restored =
     now_text @ '': Waiting for files to thaw: ''
       @ str_int (int n_keys - int n_restored) @ '' left to be restored.''"

text \<open>
  The \<open>while\<close> loop. It may run for ever, so the model counts the sweeps it is allowed:
  with none left and keys still to restore the result is \<open>None\<close>. A sweep is followed by
  the progress line and by \<open>time.sleep(300)\<close>, and only then is the condition read again.
\<close>

fun thaw_loop ::
  "nat \<Rightarrow> 'w system \<Rightarrow> 'w s3_client \<Rightarrow> string list \<Rightarrow> string \<Rightarrow> string list \<Rightarrow> 'w state
   \<Rightarrow> (py_exception + unit) option \<times> 'w state" where
  "thaw_loop fuel sys s3 object_keys bucket_name restored_objects s =
     (if length restored_objects < length object_keys then
        (case fuel of
           0 \<Rightarrow> (None, s)
         | Suc fuel' \<Rightarrow>
             let now_text = strftime (now sys (world s)) ''%Y-%m-%d %H:%M:%S''
             in (case poll_keys s3 bucket_name object_keys restored_objects s of
                   (Inl e, s1) \<Rightarrow> (Some (Inl e), s1)
                 | (Inr restored_objects', s1) \<Rightarrow>
                     let s2 = emit (Print (waiting_message now_text (length object_keys)
                                             (length restored_objects'))) s1;
                         s3' = emit (Sleep 300) (s2\<lparr>world := sleep sys 300 (world s2)\<rparr>)
                     in thaw_loop fuel' sys s3 object_keys bucket_name restored_objects' s3'))
      else (Some (Inr ()), s))"

declare thaw_loop.simps [simp del]

definition wait_for_files_to_thaw ::
  "nat \<Rightarrow> 'w system \<Rightarrow> string list \<Rightarrow> string \<Rightarrow> 'w s3_client \<Rightarrow> 'w state
   \<Rightarrow> (py_exception + unit) option \<times> 'w state" where
  "wait_for_files_to_thaw fuel sys object_keys bucket_name s3 s =
     thaw_loop fuel sys s3 object_keys bucket_name [] s"

section \<open>Downloader: \<open>download_thawed_files\<close>, and the program\<close>

text \<open>\<open>os.path.join\<close> of two parts, \<open>os.path.dirname\<close> and \<open>os.path.basename\<close> (POSIX).\<close>

definition path_join :: "string \<Rightarrow> string \<Rightarrow> string" where
  "path_join a b =
     (if prefix ''/'' b then b
      else if a = [] \<or> last a = CHR ''/'' then a @ b
      else a @ ''/'' @ b)"

definition after_last_slash :: "string \<Rightarrow> nat" where
  "after_last_slash p = length p - length (takeWhile (\<lambda>c. c \<noteq> CHR ''/'') (rev p))"

definition path_dirname :: "string \<Rightarrow> string" where
  "path_dirname p =
     (let head = take (after_last_slash p) p
      in if head \<noteq> [] \<and> head \<noteq> replicate (length head) CHR ''/''
         then rev (dropWhile (\<lambda>c. c = CHR ''/'') (rev head))
         else head)"

definition path_basename :: "string \<Rightarrow> string" where
  "path_basename p = drop (after_last_slash p) p"

text \<open>
  An exception of \<open>os.makedirs\<close> is not caught and ends the function; one of
  \<open>s3.download_file\<close> is caught, the key reported as skipped and the loop goes on.
\<close>

fun download_thawed_files ::
  "'w system \<Rightarrow> string list \<Rightarrow> string \<Rightarrow> string \<Rightarrow> 'w s3_client \<Rightarrow> 'w state
   \<Rightarrow> (py_exception + unit) \<times> 'w state" where
  "download_thawed_files sys [] base_dir bucket_name s3 s = (Inr (), s)"
| "download_thawed_files sys (object_key # rest) base_dir bucket_name s3 s =
     (let dir = path_join base_dir (path_dirname object_key);
          (raised, w) = makedirs sys dir (world s);
          s1 = emit (MakeDirs dir raised) (s\<lparr>world := w\<rparr>)
      in case raised of
           Some exc_info \<Rightarrow> (Inl (External exc_info), s1)
         | None \<Rightarrow>
             let download_path = path_join base_dir object_key;
                 (failed, w') = download_file s3 bucket_name object_key download_path (world s1);
                 s2 = emit (DownloadFile bucket_name object_key download_path failed)
                        (s1\<lparr>world := w'\<rparr>);
                 s3' = emit (Print ((if failed = None then ''Downloaded '' else ''Skipped '')
                                    @ path_basename object_key)) s2
             in download_thawed_files sys rest base_dir bucket_name s3 s3')"

text \<open>
  The parsed command line, and the body of \<open>__main__\<close> after it: the frame list is read,
  the OpenSearch client and the S3 client are built (neither contacts its service), and
  \<open>download_thawed_files\<close> is called on the names read.
\<close>

record args =
  bucket :: string
  frame_list :: string
  output_dir :: string
  opensearch_host :: string
  opensearch_index :: string
  aws_access_key :: string
  aws_secret_key :: string
  aws_region :: string
  dry_run :: bool
  thaw_mode :: string

definition main ::
  "'w system \<Rightarrow> 'w s3_client \<Rightarrow> args \<Rightarrow> 'w state \<Rightarrow> (py_exception + unit) \<times> 'w state" where
  "main sys s3 a s =
     (let files_to_restore = read_col1 sys (frame_list a) (world s)
      in download_thawed_files sys files_to_restore (output_dir a) (bucket a) s3 s)"

section \<open>Notions used in the statements and their instances\<close>

text \<open>
  An occurrence of \<open>old\<close> that starts inside a text \<open>u\<close> and ends inside the text \<open>S\<close>
  appended to it straddles the two. When there is none, replacing in \<open>u @ S\<close> is
  replacing in \<open>u\<close> and in \<open>S\<close>.
\<close>

definition no_straddle :: "string \<Rightarrow> string \<Rightarrow> bool" where
  "no_straddle old S \<longleftrightarrow> (\<forall>u. u \<noteq> [] \<longrightarrow> prefix old (u @ S) \<longrightarrow> prefix old u)"

text \<open>
  A small index to run the functions on: a list of records, searched by reading the
  query. The metadata query returns the records whose file name contains the phrase, the
  relevance query those that meet every must-clause.
\<close>

fun jfield :: "string \<Rightarrow> json \<Rightarrow> json option" where
  "jfield k (JObj kvs) = map_of kvs k"
| "jfield k _ = None"

fun jpath :: "string list \<Rightarrow> json \<Rightarrow> json option" where
  "jpath [] j = Some j"
| "jpath (k # ks) j = (case jfield k j of None \<Rightarrow> None | Some j' \<Rightarrow> jpath ks j')"

definition clause_holds :: "metadata \<Rightarrow> json \<Rightarrow> bool" where
  "clause_holds doc clause =
     (case jfield ''match_phrase'' clause of
        Some (JObj [(field, JStr v)]) \<Rightarrow> map_of doc field = Some v
      | _ \<Rightarrow> False)"

definition sample_index :: "metadata list \<Rightarrow> unit search_host" where
  "sample_index docs index_name query w =
     (case jpath [''query'', ''match_phrase'', ''filename''] query of
        Some (JStr phrase) \<Rightarrow>
          (Some (filter (\<lambda>doc. case map_of doc ''filename'' of
                                  None \<Rightarrow> False
                                | Some f \<Rightarrow> str_contains phrase f) docs), w)
      | _ \<Rightarrow>
          (case jpath [''query'', ''function_score'', ''query'', ''bool'', ''must''] query of
             Some (JList clauses) \<Rightarrow>
               (Some (filter (\<lambda>doc. list_all (clause_holds doc) clauses) docs), w)
           | _ \<Rightarrow> (Some [], w)))"

definition sample_docs :: "metadata list" where
  "sample_docs =
     [[(''filename'', ''coj0m405-kb24-20200101-0001-e00.fits''), (''OBSTYPE'', ''EXPOSE''),
       (''SITEID'', ''coj''), (''INSTRUME'', ''kb24''), (''FILTER'', ''rp''),
       (''DATE-OBS'', ''2020-01-01T10:30:00'')],
      [(''filename'', ''coj0m405-kb24-20200101-0010-f00.fits''), (''OBSTYPE'', ''SKYFLAT''),
       (''SITEID'', ''coj''), (''INSTRUME'', ''kb24''), (''FILTER'', ''rp''),
       (''DATE-OBS'', ''2020-01-01T09:00:00'')],
      [(''filename'', ''coj0m405-kb24-20200101-0011-f91.fits''), (''OBSTYPE'', ''SKYFLAT''),
       (''SITEID'', ''coj''), (''INSTRUME'', ''kb24''), (''FILTER'', ''rp''),
       (''DATE-OBS'', ''2020-01-01T09:05:00'')],
      [(''filename'', ''coj0m405-kb24-20200101-0012-f00.fits''), (''OBSTYPE'', ''SKYFLAT''),
       (''SITEID'', ''coj''), (''INSTRUME'', ''kb24''), (''FILTER'', ''V''),
       (''DATE-OBS'', ''2020-01-01T09:10:00'')],
      [(''filename'', ''coj0m405-kb24-20191231-0007-e00.fits''), (''OBSTYPE'', ''EXPOSE''),
       (''SITEID'', ''coj''), (''INSTRUME'', ''kb24''), (''FILTER'', ''rp''),
       (''DATE-OBS'', ''N/A'')]]"

text \<open>The state before anything has happened, for a world with nothing in it to read.\<close>

definition start :: "unit state" where
  "start = \<lparr>world = (), trace = []\<rparr>"

text \<open>
  Reading a trace: the restore requests in it, each with its key and with what it raised,
  and the lines printed. A request is recovered when it raised nothing or when the text of
  what it raised holds one of the two names \<open>thaw_files\<close> looks for; its key is a dead
  reference when the text holds \<open>NoSuchKey\<close>.
\<close>

fun is_restore :: "event \<Rightarrow> bool" where
  "is_restore (RestoreObject b k d t r) = True"
| "is_restore _ = False"

fun restore_calls :: "event list \<Rightarrow> (string \<times> string option) list" where
  "restore_calls [] = []"
| "restore_calls (RestoreObject b k d t r # evs) = (k, r) # restore_calls evs"
| "restore_calls (_ # evs) = restore_calls evs"

fun printed :: "event list \<Rightarrow> string list" where
  "printed [] = []"
| "printed (Print line # evs) = line # printed evs"
| "printed (_ # evs) = printed evs"

definition recovered :: "string option \<Rightarrow> bool" where
  "recovered raised =
     (case raised of
        None \<Rightarrow> True
      | Some exc_info \<Rightarrow>
          str_contains ''NoSuchKey'' exc_info \<or> str_contains ''RestoreAlreadyInProgress'' exc_info)"

definition is_dead :: "string \<times> string option \<Rightarrow> bool" where
  "is_dead call =
     (case snd call of None \<Rightarrow> False | Some exc_info \<Rightarrow> str_contains ''NoSuchKey'' exc_info)"

definition dead_keys :: "event list \<Rightarrow> string list" where
  "dead_keys evs = map fst (filter is_dead (restore_calls evs))"

definition unable_to_thaw :: "string \<Rightarrow> string" where
  "unable_to_thaw object_key = ''Unable to thaw file '' @ object_key @ ''. No such key.''"

text \<open>
  An S3 client to run the functions on: a restore request raises what the table says for
  the key, every object is reported as restored, every download succeeds.
\<close>

definition sample_s3 :: "(string \<times> string) list \<Rightarrow> unit s3_client" where
  "sample_s3 failures =
     \<lparr>restore_object = (\<lambda>b k d t w. (map_of failures k, w)),
      head_object = (\<lambda>b k w. (Inr [(''Restore'', ongoing_request_false)], w)),
      download_file = (\<lambda>b k p w. (None, w))\<rparr>"

definition no_such_key_text :: string where
  "no_such_key_text = ''An error occurred (NoSuchKey) when calling the RestoreObject operation: The specified key does not exist.''"

definition in_progress_text :: string where
  "in_progress_text = ''An error occurred (RestoreAlreadyInProgress) when calling the RestoreObject operation: Object restore is already in progress''"

definition access_denied_text :: string where
  "access_denied_text = ''An error occurred (AccessDenied) when calling the RestoreObject operation: Access Denied''"

definition sample_failures :: "(string \<times> string) list" where
  "sample_failures =
     [(''coj/kb24/20200101/raw/gone.fits.fz'', no_such_key_text),
      (''coj/kb24/20200101/raw/busy.fits.fz'', in_progress_text),
      (''coj/kb24/20200101/raw/locked.fits.fz'', access_denied_text)]"

text \<open>
  An operating system to run the functions on: sleeping changes nothing, the clock stands
  still, every directory can be made, and the frame list holds the two names of the
  specification's scenario. \<open>sample_args\<close> is the command line of that scenario.
\<close>

definition sample_system :: "unit system" where
  "sample_system =
     \<lparr>sleep = (\<lambda>seconds w. w),
      now = (\<lambda>w. \<lparr>year = 2020, month = 1, day = 2, hour = 3, minute = 4, second = 5,
                    microsecond = 0\<rparr>),
      makedirs = (\<lambda>path w. (None, w)),
      read_col1 = (\<lambda>path w. [''coj0m405-kb24-20200101-0001-00.fits'',
                                ''coj0m405-kb24-20200101-0002-00.fits''])\<rparr>"

definition sample_args :: args where
  "sample_args =
     \<lparr>bucket = ''test-bucket'', frame_list = ''frames.txt'', output_dir = ''out'',
      opensearch_host = ''https://opensearch.lco.global/'',
      opensearch_index = ''fitsheaders-prev1'', aws_access_key = ''key'',
      aws_secret_key = ''secret'', aws_region = ''us-west-2'', dry_run = False,
      thaw_mode = ''Standard''\<rparr>"

text \<open>
  Reading a trace: the downloads in it (bucket, key, local path), and the calls that
  \<open>download_thawed_files\<close> makes for the names \<open>names\<close>: making the directory of a
  name under the base directory, downloading a name as the key to its path under the base
  directory, and printing. No other call is one of its steps.
\<close>

fun downloads :: "event list \<Rightarrow> (string \<times> string \<times> string) list" where
  "downloads [] = []"
| "downloads (DownloadFile b k p r # evs) = (b, k, p) # downloads evs"
| "downloads (_ # evs) = downloads evs"

fun download_step :: "string \<Rightarrow> string \<Rightarrow> string list \<Rightarrow> event \<Rightarrow> bool" where
  "download_step bkt base names (DownloadFile b k p r) =
     (b = bkt \<and> k \<in> set names \<and> p = path_join base k)"
| "download_step bkt base names (MakeDirs d r) =
     (d \<in> set (map (\<lambda>k. path_join base (path_dirname k)) names))"
| "download_step bkt base names (Print line) = True"
| "download_step bkt base names _ = False"



section \<open>Replacing and splitting under an appended extension\<close>

lemma py_replace_Nil: "old \<noteq> [] \<Longrightarrow> py_replace old new [] = []"
  by (simp add: py_replace.simps)

lemma py_replace_hit:
  "old \<noteq> [] \<Longrightarrow> s \<noteq> [] \<Longrightarrow> prefix old s \<Longrightarrow>
   py_replace old new s = new @ py_replace old new (drop (length old) s)"
  by (subst py_replace.simps, cases s) simp_all

lemma py_replace_miss:
  "old \<noteq> [] \<Longrightarrow> \<not> prefix old (c # cs) \<Longrightarrow>
   py_replace old new (c # cs) = c # py_replace old new cs"
  by (subst py_replace.simps) simp

lemma py_replace_append:
  assumes "old \<noteq> []" "no_straddle old S"
  shows "py_replace old new (X @ S) = py_replace old new X @ py_replace old new S"
  using assms
proof (induction X rule: length_induct)
  case (1 X)
  show ?case
  proof (cases X)
    case Nil
    then show ?thesis using 1 by (simp add: py_replace_Nil)
  next
    case (Cons c cs)
    show ?thesis
    proof (cases "prefix old (X @ S)")
      case True
      with 1(3) Cons have p: "prefix old X" by (auto simp: no_straddle_def)
      then obtain r where X: "X = old @ r" by (auto simp: prefix_def)
      have "length r < length X" using X 1(2) by simp
      with 1 have "py_replace old new (r @ S) = py_replace old new r @ py_replace old new S"
        by blast
      moreover have "py_replace old new ((old @ r) @ S) = new @ py_replace old new (r @ S)"
        using py_replace_hit[of old "(old @ r) @ S" new] 1(2) by simp
      moreover have "py_replace old new (old @ r) = new @ py_replace old new r"
        using py_replace_hit[of old "old @ r" new] 1(2) by simp
      ultimately show ?thesis unfolding X by simp
    next
      case False
      then have np: "\<not> prefix old X" by (auto simp: prefix_def)
      have "py_replace old new (cs @ S) = py_replace old new cs @ py_replace old new S"
        using 1 Cons by simp
      then show ?thesis
        using False np Cons 1(2) by (simp add: py_replace_miss)
    qed
  qed
qed

lemma no_straddle_fits_fits: "no_straddle ''.fits'' ''.fits''"
  by (auto simp: no_straddle_def prefix_append Cons_eq_append_conv)

lemma no_straddle_fitsfz_fits: "no_straddle ''.fits.fz'' ''.fits''"
  by (auto simp: no_straddle_def prefix_append Cons_eq_append_conv)

lemma no_straddle_fitsfz_fitsfz: "no_straddle ''.fits.fz'' ''.fits.fz''"
  by (auto simp: no_straddle_def prefix_append Cons_eq_append_conv)

lemma no_straddle_fits_fitsfz: "no_straddle ''.fits'' ''.fits.fz''"
  by (auto simp: no_straddle_def prefix_append Cons_eq_append_conv)

lemma no_straddle_fz_fz: "no_straddle ''.fz'' ''.fz''"
  by (auto simp: no_straddle_def prefix_append Cons_eq_append_conv)

lemma py_replace_absent:
  "old \<noteq> [] \<Longrightarrow> \<not> str_contains old X \<Longrightarrow> py_replace old new X = X"
  by (induction X) (simp_all add: py_replace_Nil py_replace_miss)

lemma str_contains_longer:
  "prefix a b \<Longrightarrow> str_contains b X \<Longrightarrow> str_contains a X"
  by (induction X) (auto dest: prefix_order.trans)

lemma split_from_append_take:
  "n < length (split_from sep cur X) \<Longrightarrow>
   take n (split_from sep cur (X @ S)) = take n (split_from sep cur X)"
proof (induction X arbitrary: cur n)
  case Nil
  then show ?case by simp
next
  case (Cons c cs)
  show ?case
  proof (cases "c = sep")
    case True
    with Cons show ?thesis by (cases n) simp_all
  next
    case False
    with Cons show ?thesis by simp
  qed
qed

lemma split_from_length_le: "length (split_from sep cur X) \<le> Suc (length X)"
  by (induction X arbitrary: cur) (auto intro: le_SucI)

lemma py_split_segments:
  assumes "4 \<le> length (py_split sep X)"
  shows "py_getitem (py_split sep (X @ S)) 1 = Inr (py_split sep X ! 1)"
    and "py_getitem (py_split sep (X @ S)) 2 = Inr (py_split sep X ! 2)"
proof -
  have t: "take 3 (py_split sep (X @ S)) = take 3 (py_split sep X)"
    using assms split_from_append_take[of 3 sep "[]" X S] by (simp add: py_split_def)
  have "length (take 3 (py_split sep (X @ S))) = 3"
    using assms by (simp add: t)
  then have len: "3 \<le> length (py_split sep (X @ S))" by simp
  have n1: "py_split sep (X @ S) ! 1 = take 3 (py_split sep (X @ S)) ! 1"
   and n2: "py_split sep (X @ S) ! 2 = take 3 (py_split sep (X @ S)) ! 2" by simp_all
  show "py_getitem (py_split sep (X @ S)) 1 = Inr (py_split sep X ! 1)"
    using len n1 by (simp add: py_getitem_def t)
  show "py_getitem (py_split sep (X @ S)) 2 = Inr (py_split sep X ! 2)"
    using len n2 by (simp add: py_getitem_def t)
qed

lemma compressed_filename_fits:
  "compressed_filename (X @ ''.fits'') = compressed_filename X @ ''.fits.fz''"
proof -
  have a: "py_replace ''.fits.fz'' ''.fits'' ''.fits'' = ''.fits''"
    by (simp add: py_replace.simps)
  have b: "py_replace ''.fits'' ''.fits.fz'' ''.fits'' = ''.fits.fz''"
    by (simp add: py_replace.simps)
  show ?thesis
    unfolding compressed_filename_def
    by (simp add: py_replace_append[OF _ no_straddle_fitsfz_fits]
                  py_replace_append[OF _ no_straddle_fits_fits] a b)
qed

lemma compressed_filename_fits_fz:
  "compressed_filename (X @ ''.fits.fz'') = compressed_filename X @ ''.fits.fz''"
proof -
  have a: "py_replace ''.fits.fz'' ''.fits'' ''.fits.fz'' = ''.fits''"
    by (simp add: py_replace.simps)
  have b: "py_replace ''.fits'' ''.fits.fz'' ''.fits'' = ''.fits.fz''"
    by (simp add: py_replace.simps)
  show ?thesis
    unfolding compressed_filename_def
    by (simp add: py_replace_append[OF _ no_straddle_fitsfz_fitsfz]
                  py_replace_append[OF _ no_straddle_fits_fits] a b)
qed

lemma compressed_filename_plain:
  assumes "\<not> str_contains ''.fits'' X"
  shows "compressed_filename X = X"
proof -
  have "\<not> str_contains ''.fits.fz'' X"
    using assms str_contains_longer[of "''.fits''" "''.fits.fz''" X] by auto
  with assms show ?thesis by (simp add: compressed_filename_def py_replace_absent)
qed

section \<open>The convention key\<close>

text \<open>
  Claim C6. A frame name that follows the convention is a base name \<open>X\<close>, whose
  hyphen-delimited segments start with the site and telescope, the instrument and the
  day of observation and go on with at least one more, followed by \<open>.fits\<close> or
  \<open>.fits.fz\<close>. For every such \<open>X\<close>, \<open>make_s3_prefix_from_filename\<close> returns the key
  site/instrument/day/raw/compressed-name, where the site is the first three characters,
  the instrument and the day are the second and third segments and the compressed name
  ends in \<open>.fits.fz\<close>; the key is the same for \<open>X.fits\<close> and for \<open>X.fits.fz\<close>; and when
  \<open>X\<close> itself holds no \<open>.fits\<close>, the compressed name is \<open>X.fits.fz\<close>.
\<close>

theorem make_s3_prefix_from_filename_convention:
  assumes "4 \<le> length (py_split CHR ''-'' X)"
  shows "make_s3_prefix_from_filename (X @ ''.fits'') =
           Inr (take 3 X @ ''/'' @ py_split CHR ''-'' X ! 1 @ ''/'' @ py_split CHR ''-'' X ! 2
                @ ''/raw/'' @ compressed_filename X @ ''.fits.fz'')
       \<and> make_s3_prefix_from_filename (X @ ''.fits.fz'') =
           make_s3_prefix_from_filename (X @ ''.fits'')
       \<and> length (take 3 X) = 3
       \<and> (\<not> str_contains ''.fits'' X \<longrightarrow> compressed_filename X = X)"
proof -
  have "4 \<le> Suc (length X)"
    using assms split_from_length_le[of "CHR ''-''" "[]" X] by (simp add: py_split_def)
  then have l: "3 \<le> length X" by simp
  show ?thesis
    using l compressed_filename_plain[of X]
    by (simp add: make_s3_prefix_from_filename_def py_split_segments[OF assms]
                  compressed_filename_fits compressed_filename_fits_fz)
qed

theorem make_s3_prefix_from_filename_convention_witness:
  "4 \<le> length (py_split CHR ''-'' ''coj0m405-kb24-20200101-0001-00'')
   \<and> \<not> str_contains ''.fits'' ''coj0m405-kb24-20200101-0001-00''
   \<and> make_s3_prefix_from_filename ''coj0m405-kb24-20200101-0001-00.fits'' =
       Inr ''coj/kb24/20200101/raw/coj0m405-kb24-20200101-0001-00.fits.fz''
   \<and> make_s3_prefix_from_filename ''coj0m405-kb24-20200101-0001-00.fits.fz'' =
       Inr ''coj/kb24/20200101/raw/coj0m405-kb24-20200101-0001-00.fits.fz''"
proof -
  have h: "4 \<le> length (py_split CHR ''-'' ''coj0m405-kb24-20200101-0001-00'')"
    by (simp add: py_split_def)
  have n: "\<not> str_contains ''.fits'' ''coj0m405-kb24-20200101-0001-00''"
    by simp
  have s: "py_split CHR ''-'' ''coj0m405-kb24-20200101-0001-00''
             = [''coj0m405'', ''kb24'', ''20200101'', ''0001'', ''00'']"
    by (simp add: py_split_def)
  show ?thesis
    using h n make_s3_prefix_from_filename_convention[OF h] by (simp add: s)
qed

section \<open>Date parsing\<close>

lemma padded_half_second:
  "padded_date_obs ''2020-01-01T10:30:00.5'' = ''2020-01-01T10:30:00.500000''"
  by code_simp

lemma padded_whole_second:
  "padded_date_obs ''2020-01-01T10:30:00'' = ''2020-01-01T10:30:00.000000''"
  by code_simp

lemma match_half_second:
  "hd (match_format (parse_format ''%Y-%m-%dT%H:%M:%S.%f'') ''2020-01-01T10:30:00.500000'')
     = ([(CHR ''Y'', ''2020''), (CHR ''m'', ''01''), (CHR ''d'', ''01''),
         (CHR ''H'', ''10''), (CHR ''M'', ''30''), (CHR ''S'', ''00''),
         (CHR ''f'', ''500000'')], [])
   \<and> match_format (parse_format ''%Y-%m-%dT%H:%M:%S.%f'') ''2020-01-01T10:30:00.500000'' \<noteq> []"
  by code_simp

lemma py_int_fields:
  "py_int ''500000'' = 500000" "py_int ''2020'' = 2020" "py_int ''01'' = 1"
  "py_int ''10'' = 10" "py_int ''30'' = 30" "py_int ''00'' = 0"
  by (simp_all add: py_int_def digit_value_def)

lemma strptime_half_second:
  "strptime ''2020-01-01T10:30:00.500000'' ''%Y-%m-%dT%H:%M:%S.%f'' =
     Inr \<lparr>year = 2020, month = 1, day = 1, hour = 10, minute = 30, second = 0,
          microsecond = 500000\<rparr>"
proof -
  obtain rest where
    "match_format (parse_format ''%Y-%m-%dT%H:%M:%S.%f'') ''2020-01-01T10:30:00.500000''
       = ([(CHR ''Y'', ''2020''), (CHR ''m'', ''01''), (CHR ''d'', ''01''),
           (CHR ''H'', ''10''), (CHR ''M'', ''30''), (CHR ''S'', ''00''),
           (CHR ''f'', ''500000'')], []) # rest"
    using match_half_second
    by (cases "match_format (parse_format ''%Y-%m-%dT%H:%M:%S.%f'')
                 ''2020-01-01T10:30:00.500000''") auto
  then show ?thesis
    by (simp add: strptime_def group_value_def py_int_fields days_in_month_def is_leap_def)
qed

lemma parse_date_only:
  "parse_date_obs ''2020-01-01'' =
     Inr (Some \<lparr>year = 2020, month = 1, day = 1, hour = 0, minute = 0, second = 0,
                microsecond = 0\<rparr>)"
  by code_simp

lemma parse_whole_second:
  "parse_date_obs ''2020-01-01T10:30:00'' =
     Inr (Some \<lparr>year = 2020, month = 1, day = 1, hour = 10, minute = 30, second = 0,
                microsecond = 0\<rparr>)"
  by code_simp

lemma parse_half_second:
  "parse_date_obs ''2020-01-01T10:30:00.5'' =
     Inr (Some \<lparr>year = 2020, month = 1, day = 1, hour = 10, minute = 30, second = 0,
                microsecond = 500000\<rparr>)"
proof -
  have "str_contains ''T'' ''2020-01-01T10:30:00.5''" by code_simp
  then show ?thesis
    by (simp add: parse_date_obs_def padded_half_second strptime_half_second)
qed

text \<open>
  Claim C5. \<open>parse_date_obs\<close> on the four texts of the specification: the date alone is
  midnight of that day with no microseconds; the time without a fraction is padded with
  \<open>.000000\<close> and has no microseconds; the fraction \<open>.5\<close> is padded to \<open>.500000\<close> and is
  500000 microseconds; \<open>N/A\<close> gives \<open>None\<close>. None of the four raises.
\<close>

theorem parse_date_obs_examples:
  "parse_date_obs ''2020-01-01'' =
     Inr (Some \<lparr>year = 2020, month = 1, day = 1, hour = 0, minute = 0, second = 0,
                microsecond = 0\<rparr>)
   \<and> padded_date_obs ''2020-01-01T10:30:00'' = ''2020-01-01T10:30:00.000000''
   \<and> parse_date_obs ''2020-01-01T10:30:00'' =
     Inr (Some \<lparr>year = 2020, month = 1, day = 1, hour = 10, minute = 30, second = 0,
                microsecond = 0\<rparr>)
   \<and> padded_date_obs ''2020-01-01T10:30:00.5'' = ''2020-01-01T10:30:00.500000''
   \<and> parse_date_obs ''2020-01-01T10:30:00.5'' =
     Inr (Some \<lparr>year = 2020, month = 1, day = 1, hour = 10, minute = 30, second = 0,
                microsecond = 500000\<rparr>)
   \<and> parse_date_obs ''N/A'' = Inr None"
proof (intro conjI)
  show "parse_date_obs ''N/A'' = Inr None" by (simp add: parse_date_obs_def)
qed (rule parse_date_only padded_whole_second parse_whole_second padded_half_second
       parse_half_second)+

section \<open>Metadata lookup\<close>

lemma scrubbed_filename_fits: "scrubbed_filename (X @ ''.fits'') = scrubbed_filename X"
proof -
  have "py_replace ''.fits'' '''' ''.fits'' = ''''"
    by (simp add: py_replace.simps)
  then show ?thesis
    unfolding scrubbed_filename_def
    by (simp add: py_replace_append[OF _ no_straddle_fits_fits])
qed

lemma scrubbed_filename_fits_fz: "scrubbed_filename (X @ ''.fits.fz'') = scrubbed_filename X"
proof -
  have a: "py_replace ''.fits'' '''' ''.fits.fz'' = ''.fz''"
    by (simp add: py_replace.simps)
  have b: "py_replace ''.fz'' '''' ''.fz'' = ''''"
    by (simp add: py_replace.simps)
  show ?thesis
    unfolding scrubbed_filename_def
    by (simp add: py_replace_append[OF _ no_straddle_fits_fitsfz]
                  py_replace_append[OF _ no_straddle_fz_fz] a b)
qed

lemma get_frame_metadata_query_only:
  assumes "metadata_query f = metadata_query g"
  shows "fst (get_frame_metadata f search_host index_name s)
         = fst (get_frame_metadata g search_host index_name s)"
  using assms
  by (simp add: get_frame_metadata_def Let_def split: prod.splits option.splits list.splits)

text \<open>
  Claim C7. For every base name \<open>X\<close>, \<open>get_frame_metadata\<close> builds the same query
  for \<open>X.fits\<close>, \<open>X.fits.fz\<close> and \<open>X\<close>, so that from the same state of the index
  the three calls return the same record or all return \<open>None\<close>. For every file name,
  when the hits are \<open>None\<close> or empty the function returns \<open>None\<close> after the one search
  and prints the file name as it was given; otherwise it returns the record of the first
  hit and prints nothing.
\<close>

theorem get_frame_metadata_extension_agnostic:
  "metadata_query (X @ ''.fits'') = metadata_query X
   \<and> metadata_query (X @ ''.fits.fz'') = metadata_query X
   \<and> fst (get_frame_metadata (X @ ''.fits'') search_host index_name s)
       = fst (get_frame_metadata X search_host index_name s)
   \<and> fst (get_frame_metadata (X @ ''.fits.fz'') search_host index_name s)
       = fst (get_frame_metadata X search_host index_name s)
   \<and> (\<forall>filename response w.
         search_host index_name (metadata_query filename) (world s) = (response, w) \<longrightarrow>
           (response = None \<or> response = Some [] \<longrightarrow>
              get_frame_metadata filename search_host index_name s =
                (None, s\<lparr>world := w,
                          trace := trace s @ [Search index_name (metadata_query filename) response,
                                              Print filename]\<rparr>))
         \<and> (\<forall>hit rest. response = Some (hit # rest) \<longrightarrow>
              get_frame_metadata filename search_host index_name s =
                (Some hit, s\<lparr>world := w,
                              trace := trace s @ [Search index_name (metadata_query filename)
                                                    response]\<rparr>)))"
proof -
  have q1: "metadata_query (X @ ''.fits'') = metadata_query X"
    by (simp add: metadata_query_def scrubbed_filename_fits)
  have q2: "metadata_query (X @ ''.fits.fz'') = metadata_query X"
    by (simp add: metadata_query_def scrubbed_filename_fits_fz)
  have r: "\<forall>filename response w.
         search_host index_name (metadata_query filename) (world s) = (response, w) \<longrightarrow>
           (response = None \<or> response = Some [] \<longrightarrow>
              get_frame_metadata filename search_host index_name s =
                (None, s\<lparr>world := w,
                          trace := trace s @ [Search index_name (metadata_query filename) response,
                                              Print filename]\<rparr>))
         \<and> (\<forall>hit rest. response = Some (hit # rest) \<longrightarrow>
              get_frame_metadata filename search_host index_name s =
                (Some hit, s\<lparr>world := w,
                              trace := trace s @ [Search index_name (metadata_query filename)
                                                    response]\<rparr>))"
    by (auto simp: get_frame_metadata_def emit_def)
  show ?thesis
    by (intro conjI)
       (rule q1 q2 r get_frame_metadata_query_only[OF q1] get_frame_metadata_query_only[OF q2])+
qed

theorem get_frame_metadata_extension_agnostic_witness:
  "fst (get_frame_metadata ''coj0m405-kb24-20200101-0001-e00.fits'' (sample_index sample_docs)
          ''fitsheaders-prev1'' start) = Some (hd sample_docs)
   \<and> fst (get_frame_metadata ''coj0m405-kb24-20200101-0001-e00.fits.fz'' (sample_index sample_docs)
          ''fitsheaders-prev1'' start) = Some (hd sample_docs)
   \<and> fst (get_frame_metadata ''coj0m405-kb24-20200101-0001-e00'' (sample_index sample_docs)
          ''fitsheaders-prev1'' start) = Some (hd sample_docs)
   \<and> sample_index sample_docs ''fitsheaders-prev1'' (metadata_query ''absent-frame.fits'') (world start)
       = (Some [], ())
   \<and> get_frame_metadata ''absent-frame.fits'' (sample_index sample_docs) ''fitsheaders-prev1'' start
       = (None, start\<lparr>world := (),
                        trace := trace start @ [Search ''fitsheaders-prev1''
                                   (metadata_query ''absent-frame.fits'') (Some []),
                                 Print ''absent-frame.fits'']\<rparr>)"
proof -
  have e: "fst (get_frame_metadata ''coj0m405-kb24-20200101-0001-e00'' (sample_index sample_docs)
             ''fitsheaders-prev1'' start) = Some (hd sample_docs)"
    by code_simp
  have r: "sample_index sample_docs ''fitsheaders-prev1'' (metadata_query ''absent-frame.fits'')
             (world start) = (Some [], ())"
    by code_simp
  note t = get_frame_metadata_extension_agnostic
             [of "''coj0m405-kb24-20200101-0001-e00''" "sample_index sample_docs"
                 "''fitsheaders-prev1''" start]
  note t3 = t[THEN conjunct2, THEN conjunct2, THEN conjunct1]
  note t4 = t[THEN conjunct2, THEN conjunct2, THEN conjunct2, THEN conjunct1]
  note t5 = t[THEN conjunct2, THEN conjunct2, THEN conjunct2, THEN conjunct2]
  have x1: "fst (get_frame_metadata ''coj0m405-kb24-20200101-0001-e00.fits'' (sample_index sample_docs)
              ''fitsheaders-prev1'' start) = Some (hd sample_docs)"
    using t3 e by simp
  have x2: "fst (get_frame_metadata ''coj0m405-kb24-20200101-0001-e00.fits.fz''
              (sample_index sample_docs) ''fitsheaders-prev1'' start) = Some (hd sample_docs)"
    using t4 e by simp
  have a: "get_frame_metadata ''absent-frame.fits'' (sample_index sample_docs) ''fitsheaders-prev1'' start
       = (None, start\<lparr>world := (),
                        trace := trace start @ [Search ''fitsheaders-prev1''
                                   (metadata_query ''absent-frame.fits'') (Some []),
                                 Print ''absent-frame.fits'']\<rparr>)"
    by (rule t5[THEN spec, THEN spec, THEN spec, THEN mp, OF r, THEN conjunct1, THEN mp]) simp
  show ?thesis
    by (intro conjI) (rule x1 x2 e r a)+
qed

lemma metadata_query_not_calibration_query:
  "metadata_query filename \<noteq> calibration_query filters origin n_frames"
  by (simp add: metadata_query_def calibration_query_def)

text \<open>
  Claim C8. Whenever the metadata lookup of the target frame returns no record,
  \<open>get_nearest_calibration_frames\<close> returns the empty list in the state the lookup left:
  all it has done is the metadata search and the printing of the file name, and no
  relevance query, for whatever filters and origin, is among the calls it made.
\<close>

theorem no_metadata_no_relevance_query:
  assumes "fst (get_frame_metadata filename search_host search_index s) = None"
  shows "get_nearest_calibration_frames obstype n_frames filename search_host search_index s
           = (Inr [], snd (get_frame_metadata filename search_host search_index s))
       \<and> trace (snd (get_nearest_calibration_frames obstype n_frames filename search_host
                       search_index s))
           = trace s @ [Search search_index (metadata_query filename)
                          (fst (search_host search_index (metadata_query filename) (world s))),
                        Print filename]
       \<and> (\<forall>filters origin response.
             Search search_index (calibration_query filters origin n_frames) response
               \<notin> set (drop (length (trace s))
                         (trace (snd (get_nearest_calibration_frames obstype n_frames filename
                                        search_host search_index s)))))"
proof -
  obtain s1 where g: "get_frame_metadata filename search_host search_index s = (None, s1)"
    using assms by (cases "get_frame_metadata filename search_host search_index s") simp
  have r: "get_nearest_calibration_frames obstype n_frames filename search_host search_index s
             = (Inr [], s1)"
    by (simp add: get_nearest_calibration_frames_def g)
  have t: "trace s1 = trace s @ [Search search_index (metadata_query filename)
                          (fst (search_host search_index (metadata_query filename) (world s))),
                        Print filename]"
    using g
    by (auto simp: get_frame_metadata_def emit_def Let_def
             split: prod.splits option.splits list.splits)
  show ?thesis
    by (simp add: r g t metadata_query_not_calibration_query[symmetric])
qed

theorem no_metadata_no_relevance_query_witness:
  "fst (get_frame_metadata ''absent-frame.fits'' (sample_index sample_docs)
          ''fitsheaders-prev1'' start) = None
   \<and> get_nearest_calibration_frames ''BIAS'' 3 ''absent-frame.fits'' (sample_index sample_docs)
        ''fitsheaders-prev1'' start
       = (Inr [], \<lparr>world = (),
                   trace = [Search ''fitsheaders-prev1'' (metadata_query ''absent-frame.fits'')
                              (Some []),
                            Print ''absent-frame.fits'']\<rparr>)"
proof -
  have h: "fst (get_frame_metadata ''absent-frame.fits'' (sample_index sample_docs)
             ''fitsheaders-prev1'' start) = None"
    by code_simp
  have s: "snd (get_frame_metadata ''absent-frame.fits'' (sample_index sample_docs)
             ''fitsheaders-prev1'' start)
           = \<lparr>world = (),
              trace = [Search ''fitsheaders-prev1'' (metadata_query ''absent-frame.fits'')
                         (Some []),
                       Print ''absent-frame.fits'']\<rparr>"
    by code_simp
  note t = no_metadata_no_relevance_query[OF h, of "''BIAS''" 3, THEN conjunct1]
  show ?thesis
    using h t by (simp add: s)
qed


section \<open>Calibration frame finder\<close>







text \<open>
  Claim C9 says that the formatting of the time origin never meets a missing timestamp
  once the lookup has returned a record. The lookup does not look at \<open>DATE-OBS\<close>: on the
  index below it returns a record whose \<open>DATE-OBS\<close> is \<open>N/A\<close>, \<open>parse_date_obs\<close> returns
  \<open>None\<close> for it, and the call of \<open>strftime\<close> on \<open>None\<close> raises \<open>AttributeError\<close>.
\<close>

theorem date_obs_sentinel_raises:
  "fst (get_frame_metadata ''coj0m405-kb24-20191231-0007-e00.fits''
          (sample_index sample_docs) ''fitsheaders-prev1'' start) = Some (sample_docs ! 4)
   \<and> dict_get (sample_docs ! 4) ''DATE-OBS'' = Inr ''N/A''
   \<and> fst (get_nearest_calibration_frames ''BIAS'' 1 ''coj0m405-kb24-20191231-0007-e00.fits''
          (sample_index sample_docs) ''fitsheaders-prev1'' start) = Inl AttributeError"
  by code_simp

section \<open>Restore orchestrator\<close>

lemma restore_calls_append [simp]:
  "restore_calls (xs @ ys) = restore_calls xs @ restore_calls ys"
  by (induction xs rule: restore_calls.induct) simp_all

lemma printed_append [simp]: "printed (xs @ ys) = printed xs @ printed ys"
  by (induction xs rule: printed.induct) simp_all

lemma dead_keys_append [simp]: "dead_keys (xs @ ys) = dead_keys xs @ dead_keys ys"
  by (simp add: dead_keys_def)

lemma thaw_sweep_Inr:
  assumes "thaw_sweep s3 bkt tier keys dead s = (Inr dead', s')"
  shows "\<exists>evs. trace s' = trace s @ evs
       \<and> filter is_restore evs = map (\<lambda>(k, r). RestoreObject bkt k 1 tier r) (restore_calls evs)
       \<and> (\<forall>(k, r)\<in>set (restore_calls evs). \<exists>w. fst (restore_object s3 bkt k 1 tier w) = r)
       \<and> map fst (restore_calls evs) = keys
       \<and> list_all (\<lambda>(k, r). recovered r) (restore_calls evs)
       \<and> dead' = dead @ dead_keys evs
       \<and> printed evs = map unable_to_thaw (dead_keys evs)"
  using assms
proof (induction keys arbitrary: dead s)
  case Nil
  then show ?case by (simp add: dead_keys_def)
next
  case (Cons k ks)
  obtain raised w where ro: "restore_object s3 bkt k 1 tier (world s) = (raised, w)"
    by (cases "restore_object s3 bkt k 1 tier (world s)")
  define s1 where "s1 = emit (RestoreObject bkt k 1 tier raised) (s\<lparr>world := w\<rparr>)"
  have t1: "trace s1 = trace s @ [RestoreObject bkt k 1 tier raised]"
    by (simp add: s1_def emit_def)
  have ans: "\<exists>w. fst (restore_object s3 bkt k 1 tier w) = raised"
    using ro by (metis fst_conv)
  show ?case
  proof (cases raised)
    case None
    with Cons.prems ro have "thaw_sweep s3 bkt tier ks dead s1 = (Inr dead', s')"
      by (simp add: s1_def)
    from Cons.IH[OF this] obtain evs where
      e: "trace s' = trace s1 @ evs"
         "filter is_restore evs
            = map (\<lambda>(k, r). RestoreObject bkt k 1 tier r) (restore_calls evs)"
         "\<forall>(k, r)\<in>set (restore_calls evs). \<exists>w. fst (restore_object s3 bkt k 1 tier w) = r"
         "map fst (restore_calls evs) = ks"
         "list_all (\<lambda>(k, r). recovered r) (restore_calls evs)"
         "dead' = dead @ dead_keys evs"
         "printed evs = map unable_to_thaw (dead_keys evs)"
      by blast
    show ?thesis
      apply (rule exI[of _ "RestoreObject bkt k 1 tier raised # evs"])
      using e t1 ans None
      by (simp add: recovered_def dead_keys_def is_dead_def)
  next
    case (Some msg)
    show ?thesis
    proof (cases "str_contains ''NoSuchKey'' msg")
      case True
      define s2 where "s2 = emit (Print (''Unable to thaw file '' @ k @ ''. No such key.'')) s1"
      have t2: "trace s2 = trace s @ [RestoreObject bkt k 1 tier raised, Print (unable_to_thaw k)]"
        by (simp add: s2_def emit_def t1 unable_to_thaw_def)
      from Cons.prems ro Some True
      have "thaw_sweep s3 bkt tier ks (dead @ [k]) s2 = (Inr dead', s')"
        by (simp add: s1_def s2_def)
      from Cons.IH[OF this] obtain evs where
        e: "trace s' = trace s2 @ evs"
           "filter is_restore evs
              = map (\<lambda>(k, r). RestoreObject bkt k 1 tier r) (restore_calls evs)"
           "\<forall>(k, r)\<in>set (restore_calls evs). \<exists>w. fst (restore_object s3 bkt k 1 tier w) = r"
           "map fst (restore_calls evs) = ks"
           "list_all (\<lambda>(k, r). recovered r) (restore_calls evs)"
           "dead' = (dead @ [k]) @ dead_keys evs"
           "printed evs = map unable_to_thaw (dead_keys evs)"
        by blast
      show ?thesis
        apply (rule exI[of _ "RestoreObject bkt k 1 tier raised # Print (unable_to_thaw k) # evs"])
        using e t2 ans Some True
        by (simp add: recovered_def dead_keys_def is_dead_def)
    next
      case False
      with Cons.prems ro Some
      have ip: "str_contains ''RestoreAlreadyInProgress'' msg"
        by (auto simp: s1_def Let_def split: if_splits)
      with Cons.prems ro Some False
      have "thaw_sweep s3 bkt tier ks dead s1 = (Inr dead', s')"
        by (simp add: s1_def)
      from Cons.IH[OF this] obtain evs where
        e: "trace s' = trace s1 @ evs"
           "filter is_restore evs
              = map (\<lambda>(k, r). RestoreObject bkt k 1 tier r) (restore_calls evs)"
           "\<forall>(k, r)\<in>set (restore_calls evs). \<exists>w. fst (restore_object s3 bkt k 1 tier w) = r"
           "map fst (restore_calls evs) = ks"
           "list_all (\<lambda>(k, r). recovered r) (restore_calls evs)"
           "dead' = dead @ dead_keys evs"
           "printed evs = map unable_to_thaw (dead_keys evs)"
        by blast
      show ?thesis
        apply (rule exI[of _ "RestoreObject bkt k 1 tier raised # evs"])
        using e t1 ans Some False ip
        by (simp add: recovered_def dead_keys_def is_dead_def)
    qed
  qed
qed


lemma thaw_sweep_Inl:
  assumes "thaw_sweep s3 bkt tier keys dead s = (Inl e, s')"
  shows "\<exists>evs pre k msg. trace s' = trace s @ evs
       \<and> filter is_restore evs = map (\<lambda>(k, r). RestoreObject bkt k 1 tier r) (restore_calls evs)
       \<and> (\<forall>(k, r)\<in>set (restore_calls evs). \<exists>w. fst (restore_object s3 bkt k 1 tier w) = r)
       \<and> restore_calls evs = pre @ [(k, Some msg)]
       \<and> list_all (\<lambda>(k, r). recovered r) pre
       \<and> \<not> recovered (Some msg)
       \<and> e = External msg
       \<and> prefix (map fst (restore_calls evs)) keys
       \<and> evs \<noteq> []
       \<and> last evs = RestoreObject bkt k 1 tier (Some msg)
       \<and> printed evs = map unable_to_thaw (dead_keys evs)"
  using assms
proof (induction keys arbitrary: dead s)
  case Nil
  then show ?case by simp
next
  case (Cons k ks)
  obtain raised w where ro: "restore_object s3 bkt k 1 tier (world s) = (raised, w)"
    by (cases "restore_object s3 bkt k 1 tier (world s)")
  define s1 where "s1 = emit (RestoreObject bkt k 1 tier raised) (s\<lparr>world := w\<rparr>)"
  have t1: "trace s1 = trace s @ [RestoreObject bkt k 1 tier raised]"
    by (simp add: s1_def emit_def)
  have ans: "\<exists>w. fst (restore_object s3 bkt k 1 tier w) = raised"
    using ro by (metis fst_conv)
  define s2 where "s2 = emit (Print (''Unable to thaw file '' @ k @ ''. No such key.'')) s1"
  have t2: "trace s2 = trace s @ [RestoreObject bkt k 1 tier raised, Print (unable_to_thaw k)]"
    by (simp add: s2_def emit_def t1 unable_to_thaw_def)
  consider (ok) "raised = None"
    | (missing) msg where "raised = Some msg" "str_contains ''NoSuchKey'' msg"
    | (busy) msg where "raised = Some msg" "\<not> str_contains ''NoSuchKey'' msg"
        "str_contains ''RestoreAlreadyInProgress'' msg"
    | (fatal) msg where "raised = Some msg" "\<not> str_contains ''NoSuchKey'' msg"
        "\<not> str_contains ''RestoreAlreadyInProgress'' msg"
    by (cases raised) auto
  then show ?case
  proof cases
    case fatal
    with Cons.prems ro have es: "e = External msg" "s' = s1"
      by (simp_all add: s1_def Let_def)
    show ?thesis
      apply (rule exI[of _ "[RestoreObject bkt k 1 tier raised]"], rule exI[of _ "[]"], rule exI[of _ k], rule exI[of _ msg])
      using es t1 ans fatal
      by (simp add: recovered_def dead_keys_def is_dead_def)
  next
    case ok
    with Cons.prems ro have "thaw_sweep s3 bkt tier ks dead s1 = (Inl e, s')"
      by (simp add: s1_def)
    from Cons.IH[OF this] obtain evs pre k' msg where
      e: "trace s' = trace s1 @ evs"
         "filter is_restore evs
            = map (\<lambda>(k, r). RestoreObject bkt k 1 tier r) (restore_calls evs)"
         "\<forall>(k, r)\<in>set (restore_calls evs). \<exists>w. fst (restore_object s3 bkt k 1 tier w) = r"
         "restore_calls evs = pre @ [(k', Some msg)]"
         "list_all (\<lambda>(k, r). recovered r) pre"
         "\<not> recovered (Some msg)"
         "e = External msg"
         "prefix (map fst (restore_calls evs)) ks"
         "evs \<noteq> []"
         "last evs = RestoreObject bkt k' 1 tier (Some msg)"
         "printed evs = map unable_to_thaw (dead_keys evs)"
      by blast
    show ?thesis
      apply (rule exI[of _ "RestoreObject bkt k 1 tier raised # evs"], rule exI[of _ "(k, raised) # pre"], rule exI[of _ k'], rule exI[of _ msg])
      using e t1 ans ok
      by (simp add: recovered_def dead_keys_def is_dead_def)
  next
    case busy
    with Cons.prems ro have "thaw_sweep s3 bkt tier ks dead s1 = (Inl e, s')"
      by (simp add: s1_def)
    from Cons.IH[OF this] obtain evs pre k' msg' where
      e: "trace s' = trace s1 @ evs"
         "filter is_restore evs
            = map (\<lambda>(k, r). RestoreObject bkt k 1 tier r) (restore_calls evs)"
         "\<forall>(k, r)\<in>set (restore_calls evs). \<exists>w. fst (restore_object s3 bkt k 1 tier w) = r"
         "restore_calls evs = pre @ [(k', Some msg')]"
         "list_all (\<lambda>(k, r). recovered r) pre"
         "\<not> recovered (Some msg')"
         "e = External msg'"
         "prefix (map fst (restore_calls evs)) ks"
         "evs \<noteq> []"
         "last evs = RestoreObject bkt k' 1 tier (Some msg')"
         "printed evs = map unable_to_thaw (dead_keys evs)"
      by blast
    show ?thesis
      apply (rule exI[of _ "RestoreObject bkt k 1 tier raised # evs"], rule exI[of _ "(k, raised) # pre"], rule exI[of _ k'], rule exI[of _ msg'])
      using e t1 ans busy
      by (simp add: recovered_def dead_keys_def is_dead_def)
  next
    case missing
    with Cons.prems ro have "thaw_sweep s3 bkt tier ks (dead @ [k]) s2 = (Inl e, s')"
      by (simp add: s1_def s2_def)
    from Cons.IH[OF this] obtain evs pre k' msg' where
      e: "trace s' = trace s2 @ evs"
         "filter is_restore evs
            = map (\<lambda>(k, r). RestoreObject bkt k 1 tier r) (restore_calls evs)"
         "\<forall>(k, r)\<in>set (restore_calls evs). \<exists>w. fst (restore_object s3 bkt k 1 tier w) = r"
         "restore_calls evs = pre @ [(k', Some msg')]"
         "list_all (\<lambda>(k, r). recovered r) pre"
         "\<not> recovered (Some msg')"
         "e = External msg'"
         "prefix (map fst (restore_calls evs)) ks"
         "evs \<noteq> []"
         "last evs = RestoreObject bkt k' 1 tier (Some msg')"
         "printed evs = map unable_to_thaw (dead_keys evs)"
      by blast
    show ?thesis
      apply (rule exI[of _ "RestoreObject bkt k 1 tier raised # Print (unable_to_thaw k) # evs"], rule exI[of _ "(k, raised) # pre"], rule exI[of _ k'], rule exI[of _ msg'])
      using e t2 ans missing
      by (simp add: recovered_def dead_keys_def is_dead_def)
  qed
qed


lemma thaw_sweep_never_fatal:
  assumes "\<forall>k\<in>set keys. \<forall>w. recovered (fst (restore_object s3 bkt k 1 tier w))"
  shows "\<exists>dead' s'. thaw_sweep s3 bkt tier keys dead s = (Inr dead', s')"
proof (cases "thaw_sweep s3 bkt tier keys dead s")
  case (Pair res s')
  show ?thesis
  proof (cases res)
    case (Inr d)
    with Pair show ?thesis by simp
  next
    case (Inl e)
    from thaw_sweep_Inl[OF Pair[unfolded Inl]] obtain evs pre k msg where
      a: "\<forall>(k, r)\<in>set (restore_calls evs). \<exists>w. fst (restore_object s3 bkt k 1 tier w) = r"
      and c: "restore_calls evs = pre @ [(k, Some msg)]"
      and n: "\<not> recovered (Some msg)"
      and p: "prefix (map fst (restore_calls evs)) keys"
      by blast
    from c p have "k \<in> set keys"
      by (auto simp: prefix_def)
    moreover from a c obtain w where "fst (restore_object s3 bkt k 1 tier w) = Some msg"
      by auto
    ultimately have "recovered (Some msg)"
      using assms by metis
    with n show ?thesis by simp
  qed
qed

text \<open>
  Claim C3. Let \<open>thaw_files\<close> run on any keys, with any client, from any state, and let
  \<open>evs\<close> be the calls it made. Every restore request in \<open>evs\<close> is for the given bucket,
  one day and the given tier, and carries what the client raised. If the function
  returns, a request was made for every key in order, each raised nothing or one of the two
  recoverable texts, one line was printed for each key whose request raised \<open>NoSuchKey\<close>,
  and the keys left are the keys without exactly those; a key whose restore was already in
  progress stays. If the function raises, the exception is the one of the last request
  made, it is neither of the two recoverable ones, every request before it was recovered,
  and no request follows it. It raises only if the client can raise something else than
  the two: with a client that never does, as when one key is absent and the others are
  valid, the function returns, so that the absent key is removed and every valid key is
  requested.
\<close>

theorem thaw_files_recovery:
  assumes "thaw_files keys bkt s3 tier s = (res, keys', s')"
  shows "\<exists>evs. trace s' = trace s @ evs
       \<and> filter is_restore evs = map (\<lambda>(k, r). RestoreObject bkt k 1 tier r) (restore_calls evs)
       \<and> (\<forall>(k, r)\<in>set (restore_calls evs). \<exists>w. fst (restore_object s3 bkt k 1 tier w) = r)
       \<and> printed evs = map unable_to_thaw (dead_keys evs)
       \<and> (res = Inr () \<longrightarrow>
              map fst (restore_calls evs) = keys
            \<and> list_all (\<lambda>(k, r). recovered r) (restore_calls evs)
            \<and> keys' = filter (\<lambda>k. k \<notin> set (dead_keys evs)) keys)
       \<and> (\<forall>e. res = Inl e \<longrightarrow>
              (\<exists>pre k msg. restore_calls evs = pre @ [(k, Some msg)]
                 \<and> list_all (\<lambda>(k, r). recovered r) pre
                 \<and> \<not> recovered (Some msg)
                 \<and> e = External msg
                 \<and> prefix (map fst (restore_calls evs)) keys
                 \<and> evs \<noteq> []
                 \<and> last evs = RestoreObject bkt k 1 tier (Some msg)))
       \<and> ((\<forall>k\<in>set keys. \<forall>w. recovered (fst (restore_object s3 bkt k 1 tier w)))
              \<longrightarrow> res = Inr ())"
proof (cases "thaw_sweep s3 bkt tier keys [] s")
  case (Pair r s1)
  show ?thesis
  proof (cases r)
    case (Inr dead')
    with Pair assms have eq: "res = Inr ()" "s' = s1"
      "keys' = filter (\<lambda>k. k \<notin> set dead') keys"
      by (simp_all add: thaw_files_def)
    from thaw_sweep_Inr[OF Pair[unfolded Inr]] obtain evs where
      "trace s1 = trace s @ evs"
      "filter is_restore evs
         = map (\<lambda>(k, r). RestoreObject bkt k 1 tier r) (restore_calls evs)"
      "\<forall>(k, r)\<in>set (restore_calls evs). \<exists>w. fst (restore_object s3 bkt k 1 tier w) = r"
      "map fst (restore_calls evs) = keys"
      "list_all (\<lambda>(k, r). recovered r) (restore_calls evs)"
      "dead' = [] @ dead_keys evs"
      "printed evs = map unable_to_thaw (dead_keys evs)"
      by blast
    then show ?thesis
      unfolding eq by (intro exI[of _ evs]) simp
  next
    case (Inl e)
    with Pair assms have eq: "res = Inl e" "s' = s1" "keys' = keys"
      by (simp_all add: thaw_files_def)
    have nf: "\<not> (\<forall>k\<in>set keys. \<forall>w. recovered (fst (restore_object s3 bkt k 1 tier w)))"
      using thaw_sweep_never_fatal[of keys s3 bkt tier "[]" s] Pair Inl by auto
    from thaw_sweep_Inl[OF Pair[unfolded Inl]] obtain evs pre k msg where
      "trace s1 = trace s @ evs"
      "filter is_restore evs
         = map (\<lambda>(k, r). RestoreObject bkt k 1 tier r) (restore_calls evs)"
      "\<forall>(k, r)\<in>set (restore_calls evs). \<exists>w. fst (restore_object s3 bkt k 1 tier w) = r"
      "restore_calls evs = pre @ [(k, Some msg)]"
      "list_all (\<lambda>(k, r). recovered r) pre"
      "\<not> recovered (Some msg)"
      "e = External msg"
      "prefix (map fst (restore_calls evs)) keys"
      "evs \<noteq> []"
      "last evs = RestoreObject bkt k 1 tier (Some msg)"
      "printed evs = map unable_to_thaw (dead_keys evs)"
      by blast
    then show ?thesis
      unfolding eq using nf by (intro exI[of _ evs]) simp
  qed
qed

theorem thaw_files_recovery_witness:
  "thaw_files [''coj/kb24/20200101/raw/one.fits.fz'', ''coj/kb24/20200101/raw/gone.fits.fz'',
               ''coj/kb24/20200101/raw/busy.fits.fz'', ''coj/kb24/20200101/raw/two.fits.fz'']
     ''test-bucket'' (sample_s3 sample_failures) ''Standard'' start
   = (Inr (),
      [''coj/kb24/20200101/raw/one.fits.fz'', ''coj/kb24/20200101/raw/busy.fits.fz'',
       ''coj/kb24/20200101/raw/two.fits.fz''],
      \<lparr>world = (),
       trace = [RestoreObject ''test-bucket'' ''coj/kb24/20200101/raw/one.fits.fz'' 1 ''Standard''
                  None,
                RestoreObject ''test-bucket'' ''coj/kb24/20200101/raw/gone.fits.fz'' 1 ''Standard''
                  (Some no_such_key_text),
                Print (unable_to_thaw ''coj/kb24/20200101/raw/gone.fits.fz''),
                RestoreObject ''test-bucket'' ''coj/kb24/20200101/raw/busy.fits.fz'' 1 ''Standard''
                  (Some in_progress_text),
                RestoreObject ''test-bucket'' ''coj/kb24/20200101/raw/two.fits.fz'' 1 ''Standard''
                  None]\<rparr>)
   \<and> map fst (restore_calls
        [RestoreObject ''test-bucket'' ''coj/kb24/20200101/raw/one.fits.fz'' 1 ''Standard'' None,
         RestoreObject ''test-bucket'' ''coj/kb24/20200101/raw/gone.fits.fz'' 1 ''Standard''
           (Some no_such_key_text),
         Print (unable_to_thaw ''coj/kb24/20200101/raw/gone.fits.fz''),
         RestoreObject ''test-bucket'' ''coj/kb24/20200101/raw/busy.fits.fz'' 1 ''Standard''
           (Some in_progress_text),
         RestoreObject ''test-bucket'' ''coj/kb24/20200101/raw/two.fits.fz'' 1 ''Standard'' None])
     = [''coj/kb24/20200101/raw/one.fits.fz'', ''coj/kb24/20200101/raw/gone.fits.fz'',
        ''coj/kb24/20200101/raw/busy.fits.fz'', ''coj/kb24/20200101/raw/two.fits.fz'']"
proof -
  let ?keys = "[''coj/kb24/20200101/raw/one.fits.fz'', ''coj/kb24/20200101/raw/gone.fits.fz'',
                ''coj/kb24/20200101/raw/busy.fits.fz'', ''coj/kb24/20200101/raw/two.fits.fz'']"
  let ?evs = "[RestoreObject ''test-bucket'' ''coj/kb24/20200101/raw/one.fits.fz'' 1 ''Standard''
                 None,
               RestoreObject ''test-bucket'' ''coj/kb24/20200101/raw/gone.fits.fz'' 1 ''Standard''
                 (Some no_such_key_text),
               Print (unable_to_thaw ''coj/kb24/20200101/raw/gone.fits.fz''),
               RestoreObject ''test-bucket'' ''coj/kb24/20200101/raw/busy.fits.fz'' 1 ''Standard''
                 (Some in_progress_text),
               RestoreObject ''test-bucket'' ''coj/kb24/20200101/raw/two.fits.fz'' 1 ''Standard''
                 None]"
  have h: "thaw_files ?keys ''test-bucket'' (sample_s3 sample_failures) ''Standard'' start
           = (Inr (),
              [''coj/kb24/20200101/raw/one.fits.fz'', ''coj/kb24/20200101/raw/busy.fits.fz'',
               ''coj/kb24/20200101/raw/two.fits.fz''],
              \<lparr>world = (), trace = ?evs\<rparr>)"
    by code_simp
  from thaw_files_recovery[OF h] have "map fst (restore_calls ?evs) = ?keys"
  proof (elim exE conjE)
    fix evs
    assume tr: "trace \<lparr>world = (), trace = ?evs\<rparr> = trace start @ evs"
       and ok: "(Inr () :: py_exception + unit) = Inr () \<longrightarrow>
                  map fst (restore_calls evs) = ?keys
                \<and> list_all (\<lambda>(k, r). recovered r) (restore_calls evs)
                \<and> [''coj/kb24/20200101/raw/one.fits.fz'', ''coj/kb24/20200101/raw/busy.fits.fz'',
                    ''coj/kb24/20200101/raw/two.fits.fz'']
                    = filter (\<lambda>k. k \<notin> set (dead_keys evs)) ?keys"
    from tr have "evs = ?evs"
      by (simp add: start_def)
    with ok show ?thesis
      by simp
  qed
  with h show ?thesis
    by (intro conjI)
qed

text \<open>
  Claim C10. When \<open>thaw_files\<close> raises, the key set is as it was at entry, and what is
  raised is an exception of a request that is neither of the two recoverable ones.
  Conversely, as soon as one request of the run raised such an exception, the run raised
  it and the key set is as it was at entry, dead references found earlier in the sweep
  included.
\<close>

theorem thaw_files_atomic:
  assumes "thaw_files keys bkt s3 tier s = (res, keys', s')"
  shows "(\<forall>e. res = Inl e \<longrightarrow>
            keys' = keys \<and> (\<exists>msg. e = External msg \<and> \<not> recovered (Some msg)))
       \<and> (\<forall>evs k msg.
            trace s' = trace s @ evs \<and> (k, Some msg) \<in> set (restore_calls evs)
              \<and> \<not> recovered (Some msg)
            \<longrightarrow> res = Inl (External msg) \<and> keys' = keys)"
proof (cases "thaw_sweep s3 bkt tier keys [] s")
  case (Pair r s1)
  show ?thesis
  proof (cases r)
    case (Inr dead')
    with Pair assms have eq: "res = Inr ()" "s' = s1"
      by (simp_all add: thaw_files_def)
    from thaw_sweep_Inr[OF Pair[unfolded Inr]] obtain evs where
      t: "trace s1 = trace s @ evs"
      and r: "list_all (\<lambda>(k, r). recovered r) (restore_calls evs)"
      by blast
    have "recovered (Some msg)"
      if "trace s' = trace s @ evs'" "(k, Some msg) \<in> set (restore_calls evs')" for evs' k msg
    proof -
      from that(1) t eq have "evs' = evs" by simp
      with that(2) r show ?thesis by (auto simp: list_all_iff)
    qed
    then show ?thesis
      unfolding eq by auto
  next
    case (Inl e)
    with Pair assms have eq: "res = Inl e" "s' = s1" "keys' = keys"
      by (simp_all add: thaw_files_def)
    from thaw_sweep_Inl[OF Pair[unfolded Inl]] obtain evs pre k0 msg0 where
      t: "trace s1 = trace s @ evs"
      and c: "restore_calls evs = pre @ [(k0, Some msg0)]"
      and p: "list_all (\<lambda>(k, r). recovered r) pre"
      and n: "\<not> recovered (Some msg0)"
      and e: "e = External msg0"
      by blast
    have "msg = msg0"
      if "trace s' = trace s @ evs'" "(k, Some msg) \<in> set (restore_calls evs')"
         "\<not> recovered (Some msg)" for evs' k msg
    proof -
      from that(1) t eq have "evs' = evs" by simp
      with that(2) c have "(k, Some msg) \<in> set pre \<or> (k, Some msg) = (k0, Some msg0)"
        by auto
      with p that(3) show ?thesis by (auto simp: list_all_iff)
    qed
    then show ?thesis
      unfolding eq using e n by auto
  qed
qed


theorem thaw_files_atomic_witness:
  "thaw_files [''coj/kb24/20200101/raw/one.fits.fz'', ''coj/kb24/20200101/raw/gone.fits.fz'',
               ''coj/kb24/20200101/raw/locked.fits.fz'', ''coj/kb24/20200101/raw/two.fits.fz'']
     ''test-bucket'' (sample_s3 sample_failures) ''Standard'' start
   = (Inl (External access_denied_text),
      [''coj/kb24/20200101/raw/one.fits.fz'', ''coj/kb24/20200101/raw/gone.fits.fz'',
       ''coj/kb24/20200101/raw/locked.fits.fz'', ''coj/kb24/20200101/raw/two.fits.fz''],
      \<lparr>world = (),
       trace = [RestoreObject ''test-bucket'' ''coj/kb24/20200101/raw/one.fits.fz'' 1 ''Standard''
                  None,
                RestoreObject ''test-bucket'' ''coj/kb24/20200101/raw/gone.fits.fz'' 1 ''Standard''
                  (Some no_such_key_text),
                Print (unable_to_thaw ''coj/kb24/20200101/raw/gone.fits.fz''),
                RestoreObject ''test-bucket'' ''coj/kb24/20200101/raw/locked.fits.fz'' 1
                  ''Standard'' (Some access_denied_text)]\<rparr>)
   \<and> \<not> recovered (Some access_denied_text)
   \<and> str_contains ''NoSuchKey'' no_such_key_text"
proof -
  let ?keys = "[''coj/kb24/20200101/raw/one.fits.fz'', ''coj/kb24/20200101/raw/gone.fits.fz'',
                ''coj/kb24/20200101/raw/locked.fits.fz'', ''coj/kb24/20200101/raw/two.fits.fz'']"
  let ?evs = "[RestoreObject ''test-bucket'' ''coj/kb24/20200101/raw/one.fits.fz'' 1 ''Standard''
                 None,
               RestoreObject ''test-bucket'' ''coj/kb24/20200101/raw/gone.fits.fz'' 1 ''Standard''
                 (Some no_such_key_text),
               Print (unable_to_thaw ''coj/kb24/20200101/raw/gone.fits.fz''),
               RestoreObject ''test-bucket'' ''coj/kb24/20200101/raw/locked.fits.fz'' 1
                 ''Standard'' (Some access_denied_text)]"
  have h: "thaw_files ?keys ''test-bucket'' (sample_s3 sample_failures) ''Standard'' start
             = (Inl (External access_denied_text), ?keys, \<lparr>world = (), trace = ?evs\<rparr>)"
    by code_simp
  have n: "\<not> recovered (Some access_denied_text)"
    by code_simp
  have d: "str_contains ''NoSuchKey'' no_such_key_text"
    by code_simp
  have c: "trace \<lparr>world = (), trace = ?evs\<rparr> = trace start @ ?evs
        \<and> (''coj/kb24/20200101/raw/locked.fits.fz'', Some access_denied_text)
              \<in> set (restore_calls ?evs)
        \<and> \<not> recovered (Some access_denied_text)"
    using n by (simp add: start_def)
  from thaw_files_atomic[OF h, THEN conjunct2, THEN spec, THEN spec, THEN spec, THEN mp, OF c]
  have "Inl (External access_denied_text) = (Inl (External access_denied_text) :: py_exception + unit)
        \<and> ?keys = ?keys" .
  with h n d show ?thesis
    by (intro conjI)
qed

section \<open>Restore waiter\<close>

lemma poll_keys_Inr:
  assumes "poll_keys s3 bkt ks restored s = (Inr restored', s')"
  shows "\<exists>evs. trace s' = trace s @ evs
       \<and> set restored \<subseteq> set restored'
       \<and> set restored' \<subseteq> set restored \<union> set ks
       \<and> (distinct restored \<longrightarrow> distinct restored')
       \<and> (\<forall>k\<in>set restored' - set restored.
             \<exists>response. HeadObject bkt k (Inr response) \<in> set evs \<and> restore_complete response)"
  using assms
proof (induction ks arbitrary: restored s)
  case Nil
  then show ?case by simp
next
  case (Cons k ks)
  show ?case
  proof (cases "k \<in> set restored")
    case True
    with Cons.prems have "poll_keys s3 bkt ks restored s = (Inr restored', s')"
      by simp
    from Cons.IH[OF this] show ?thesis
      by auto
  next
    case False
    obtain result w where ho: "head_object s3 bkt k (world s) = (result, w)"
      by (cases "head_object s3 bkt k (world s)")
    define s1 where "s1 = emit (HeadObject bkt k result) (s\<lparr>world := w\<rparr>)"
    have t1: "trace s1 = trace s @ [HeadObject bkt k result]"
      by (simp add: s1_def emit_def)
    from Cons.prems False ho obtain response where r: "result = Inr response"
      by (cases result) (simp_all add: Let_def)
    show ?thesis
    proof (cases "restore_complete response")
      case True
      with Cons.prems False ho r
      have "poll_keys s3 bkt ks (restored @ [k]) s1 = (Inr restored', s')"
        by (simp add: s1_def)
      from Cons.IH[OF this] obtain evs where
        e: "trace s' = trace s1 @ evs"
           "set (restored @ [k]) \<subseteq> set restored'"
           "set restored' \<subseteq> set (restored @ [k]) \<union> set ks"
           "distinct (restored @ [k]) \<longrightarrow> distinct restored'"
           "\<forall>k'\<in>set restored' - set (restored @ [k]).
               \<exists>response. HeadObject bkt k' (Inr response) \<in> set evs \<and> restore_complete response"
        by blast
      show ?thesis
        apply (rule exI[of _ "HeadObject bkt k result # evs"])
        using e t1 r True False
        by auto
    next
      case nc: False
      with Cons.prems False ho r
      have "poll_keys s3 bkt ks restored s1 = (Inr restored', s')"
        by (simp add: s1_def)
      from Cons.IH[OF this] obtain evs where
        e: "trace s' = trace s1 @ evs"
           "set restored \<subseteq> set restored'"
           "set restored' \<subseteq> set restored \<union> set ks"
           "distinct restored \<longrightarrow> distinct restored'"
           "\<forall>k'\<in>set restored' - set restored.
               \<exists>response. HeadObject bkt k' (Inr response) \<in> set evs \<and> restore_complete response"
        by blast
      show ?thesis
        apply (rule exI[of _ "HeadObject bkt k result # evs"])
        using e t1
        by auto
    qed
  qed
qed

lemma all_restored:
  assumes "distinct restored" "set restored \<subseteq> set keys" "\<not> length restored < length keys"
  shows "set restored = set keys"
proof -
  have "card (set keys) \<le> length keys" by (rule card_length)
  also have "\<dots> \<le> length restored" using assms(3) by simp
  also have "\<dots> = card (set restored)" using assms(1) by (simp add: distinct_card)
  finally show ?thesis
    using assms(2) by (simp add: card_seteq)
qed

lemma thaw_loop_returns:
  assumes "thaw_loop fuel sys s3 keys bkt restored s = (Some (Inr ()), s')"
      and "distinct restored" "set restored \<subseteq> set keys"
  shows "\<exists>evs. trace s' = trace s @ evs
       \<and> (\<forall>k\<in>set keys - set restored.
             \<exists>response. HeadObject bkt k (Inr response) \<in> set evs \<and> restore_complete response)
       \<and> (if length restored < length keys then evs \<noteq> [] \<and> last evs = Sleep 300
           else evs = [])"
  using assms
proof (induction fuel arbitrary: restored s)
  case 0
  show ?case
  proof (cases "length restored < length keys")
    case True
    with "0.prems"(1) show ?thesis by (simp add: thaw_loop.simps)
  next
    case False
    with "0.prems"(1) have "s' = s" by (simp add: thaw_loop.simps)
    with False all_restored[OF "0.prems"(2,3) False] show ?thesis by simp
  qed
next
  case (Suc fuel)
  show ?case
  proof (cases "length restored < length keys")
    case False
    with Suc.prems(1) have "s' = s" by (simp add: thaw_loop.simps)
    with False all_restored[OF Suc.prems(2,3) False] show ?thesis by simp
  next
    case True
    obtain r s1 where pk: "poll_keys s3 bkt keys restored s = (r, s1)"
      by (cases "poll_keys s3 bkt keys restored s")
    from Suc.prems(1) True pk obtain restored' where r: "r = Inr restored'"
      by (cases r) (simp_all add: thaw_loop.simps Let_def)
    define s2 where
      "s2 = emit (Print (waiting_message (strftime (now sys (world s)) ''%Y-%m-%d %H:%M:%S'')
                           (length keys) (length restored'))) s1"
    define s3' where "s3' = emit (Sleep 300) (s2\<lparr>world := sleep sys 300 (world s2)\<rparr>)"
    from Suc.prems(1) True pk r
    have rec: "thaw_loop fuel sys s3 keys bkt restored' s3' = (Some (Inr ()), s')"
      by (simp add: thaw_loop.simps[of "Suc fuel"] Let_def s2_def s3'_def)
    from poll_keys_Inr[OF pk[unfolded r]] obtain evs1 where
      p: "trace s1 = trace s @ evs1"
         "set restored \<subseteq> set restored'"
         "set restored' \<subseteq> set restored \<union> set keys"
         "distinct restored \<longrightarrow> distinct restored'"
         "\<forall>k\<in>set restored' - set restored.
             \<exists>response. HeadObject bkt k (Inr response) \<in> set evs1 \<and> restore_complete response"
      by blast
    have d: "distinct restored'" "set restored' \<subseteq> set keys"
      using p Suc.prems(2,3) by auto
    from Suc.IH[OF rec d] obtain evs2 where
      q: "trace s' = trace s3' @ evs2"
         "\<forall>k\<in>set keys - set restored'.
             \<exists>response. HeadObject bkt k (Inr response) \<in> set evs2 \<and> restore_complete response"
         "if length restored' < length keys then evs2 \<noteq> [] \<and> last evs2 = Sleep 300
          else evs2 = []"
      by blast
    obtain line where t3: "trace s3' = trace s1 @ [Print line, Sleep 300]"
      by (simp add: s3'_def s2_def emit_def)
    let ?evs = "evs1 @ [Print line, Sleep 300] @ evs2"
    have tr: "trace s' = trace s @ ?evs"
      using p(1) q(1) t3 by simp
    have keyfact: "\<exists>response. HeadObject bkt k (Inr response) \<in> set ?evs
                               \<and> restore_complete response"
      if "k \<in> set keys - set restored" for k
    proof (cases "k \<in> set restored'")
      case True
      with that p(5) obtain response where
        "HeadObject bkt k (Inr response) \<in> set evs1" "restore_complete response"
        by blast
      then show ?thesis by auto
    next
      case False
      with that q(2) obtain response where
        "HeadObject bkt k (Inr response) \<in> set evs2" "restore_complete response"
        by blast
      then show ?thesis by auto
    qed
    have lastfact: "?evs \<noteq> [] \<and> last ?evs = Sleep 300"
      using q(3) by (auto split: if_splits)
    show ?thesis
      using tr keyfact lastfact True by (intro exI[of _ ?evs]) simp
  qed
qed


text \<open>
  Claim C2 has two parts. The first holds: whenever \<open>wait_for_files_to_thaw\<close> returns on
  a set of keys that is not empty, every key has been polled and its status showed the
  restoration complete. The second, that the function returns without sleeping when the
  keys are restored already, does not hold of the code: \<open>time.sleep(300)\<close> follows every
  sweep, the last one included, so that whenever the function returns on a set that is not
  empty it has slept, and the sleep is the last thing it did.
\<close>

theorem wait_for_files_to_thaw_sleeps:
  assumes "object_keys \<noteq> []"
      and "wait_for_files_to_thaw fuel sys object_keys bkt s3 s = (Some (Inr ()), s')"
  shows "\<exists>evs. trace s' = trace s @ evs
       \<and> (\<forall>k\<in>set object_keys.
             \<exists>response. HeadObject bkt k (Inr response) \<in> set evs \<and> restore_complete response)
       \<and> Sleep 300 \<in> set evs
       \<and> last evs = Sleep 300"
proof -
  from assms(2) have "thaw_loop fuel sys s3 object_keys bkt [] s = (Some (Inr ()), s')"
    by (simp add: wait_for_files_to_thaw_def)
  from thaw_loop_returns[OF this] obtain evs where
    e: "trace s' = trace s @ evs"
       "\<forall>k\<in>set object_keys - set [].
           \<exists>response. HeadObject bkt k (Inr response) \<in> set evs \<and> restore_complete response"
       "if length ([] :: string list) < length object_keys
        then evs \<noteq> [] \<and> last evs = Sleep 300 else evs = []"
    by auto
  from e(3) assms(1) have l: "evs \<noteq> []" "last evs = Sleep 300"
    by simp_all
  then have "Sleep 300 \<in> set evs"
    using last_in_set by metis
  with e l show ?thesis
    by (intro exI[of _ evs]) simp
qed

theorem wait_for_files_to_thaw_sleeps_witness:
  "wait_for_files_to_thaw 1 sample_system
     [''coj/kb24/20200101/raw/coj0m405-kb24-20200101-0001-00.fits.fz'',
      ''coj/kb24/20200101/raw/coj0m405-kb24-20200101-0002-00.fits.fz'']
     ''test-bucket'' (sample_s3 []) start
   = (Some (Inr ()),
      \<lparr>world = (),
       trace = [HeadObject ''test-bucket''
                  ''coj/kb24/20200101/raw/coj0m405-kb24-20200101-0001-00.fits.fz''
                  (Inr [(''Restore'', ongoing_request_false)]),
                HeadObject ''test-bucket''
                  ''coj/kb24/20200101/raw/coj0m405-kb24-20200101-0002-00.fits.fz''
                  (Inr [(''Restore'', ongoing_request_false)]),
                Print ''2020-01-02 03:04:05: Waiting for files to thaw: 0 left to be restored.'',
                Sleep 300]\<rparr>)
   \<and> restore_complete [(''Restore'', ongoing_request_false)]
   \<and> Sleep 300 \<in> set (trace (snd (wait_for_files_to_thaw 1 sample_system
        [''coj/kb24/20200101/raw/coj0m405-kb24-20200101-0001-00.fits.fz'',
         ''coj/kb24/20200101/raw/coj0m405-kb24-20200101-0002-00.fits.fz'']
        ''test-bucket'' (sample_s3 []) start)))"
proof -
  let ?keys = "[''coj/kb24/20200101/raw/coj0m405-kb24-20200101-0001-00.fits.fz'',
                ''coj/kb24/20200101/raw/coj0m405-kb24-20200101-0002-00.fits.fz'']"
  let ?evs = "[HeadObject ''test-bucket''
                  ''coj/kb24/20200101/raw/coj0m405-kb24-20200101-0001-00.fits.fz''
                  (Inr [(''Restore'', ongoing_request_false)]),
                HeadObject ''test-bucket''
                  ''coj/kb24/20200101/raw/coj0m405-kb24-20200101-0002-00.fits.fz''
                  (Inr [(''Restore'', ongoing_request_false)]),
                Print ''2020-01-02 03:04:05: Waiting for files to thaw: 0 left to be restored.'',
                Sleep 300]"
  have h: "wait_for_files_to_thaw 1 sample_system ?keys ''test-bucket'' (sample_s3 []) start
           = (Some (Inr ()), \<lparr>world = (), trace = ?evs\<rparr>)"
    by code_simp
  have c: "restore_complete [(''Restore'', ongoing_request_false)]"
    by code_simp
  have ne: "?keys \<noteq> []" by simp
  from wait_for_files_to_thaw_sleeps[OF ne h]
  have "Sleep 300 \<in> set ?evs"
  proof (elim exE conjE)
    fix evs
    assume tr: "trace \<lparr>world = (), trace = ?evs\<rparr> = trace start @ evs"
       and sl: "Sleep 300 \<in> set evs"
    from tr have "evs = ?evs" by (simp add: start_def)
    with sl show ?thesis by simp
  qed
  then have "Sleep 300 \<in> set (trace (snd (wait_for_files_to_thaw 1 sample_system ?keys
                                   ''test-bucket'' (sample_s3 []) start)))"
    unfolding h by simp
  with h c show ?thesis
    by (intro conjI)
qed


section \<open>The program\<close>

lemma downloads_append [simp]: "downloads (xs @ ys) = downloads xs @ downloads ys"
  by (induction xs rule: downloads.induct) simp_all

lemma download_thawed_files_trace:
  assumes "download_thawed_files sys ks base bkt s3 s = (res, s')"
      and "set ks \<subseteq> set names"
  shows "\<exists>evs. trace s' = trace s @ evs
       \<and> list_all (download_step bkt base names) evs
       \<and> (res = Inr () \<longrightarrow> downloads evs = map (\<lambda>k. (bkt, k, path_join base k)) ks)"
  using assms
proof (induction ks arbitrary: s)
  case Nil
  then show ?case by simp
next
  case (Cons k ks)
  define dir where "dir = path_join base (path_dirname k)"
  obtain raised w where md: "makedirs sys dir (world s) = (raised, w)"
    by (cases "makedirs sys dir (world s)")
  define s1 where "s1 = emit (MakeDirs dir raised) (s\<lparr>world := w\<rparr>)"
  have t1: "trace s1 = trace s @ [MakeDirs dir raised]"
    by (simp add: s1_def emit_def)
  have k: "k \<in> set names" using Cons.prems(2) by simp
  then have step1: "download_step bkt base names (MakeDirs dir raised)"
    by (auto simp: dir_def)
  show ?case
  proof (cases raised)
    case (Some exc_info)
    with Cons.prems(1) md have "res = Inl (External exc_info)" "s' = s1"
      by (simp_all add: dir_def s1_def Let_def)
    with t1 step1 show ?thesis
      by (intro exI[of _ "[MakeDirs dir raised]"]) simp
  next
    case None
    define path where "path = path_join base k"
    obtain failed w' where df: "download_file s3 bkt k path (world s1) = (failed, w')"
      by (cases "download_file s3 bkt k path (world s1)")
    define s2 where "s2 = emit (DownloadFile bkt k path failed) (s1\<lparr>world := w'\<rparr>)"
    define s3' where
      "s3' = emit (Print ((if failed = None then ''Downloaded '' else ''Skipped '')
                          @ path_basename k)) s2"
    obtain line where t3: "trace s3' = trace s @ [MakeDirs dir raised,
                                                  DownloadFile bkt k path failed, Print line]"
      by (simp add: s3'_def s2_def emit_def t1)
    from Cons.prems(1) md None df
    have "download_thawed_files sys ks base bkt s3 s3' = (res, s')"
      by (simp add: dir_def s1_def path_def s2_def s3'_def Let_def)
    from Cons.IH[OF this] Cons.prems(2) obtain evs where
      e: "trace s' = trace s3' @ evs"
         "list_all (download_step bkt base names) evs"
         "res = Inr () \<longrightarrow> downloads evs = map (\<lambda>k. (bkt, k, path_join base k)) ks"
      by auto
    show ?thesis
      using e t3 step1 k
      by (intro exI[of _ "[MakeDirs dir raised, DownloadFile bkt k path failed, Print line] @ evs"])
         (simp add: path_def)
  qed
qed

text \<open>
  Claim C1 describes the program as resolving each name to its convention key, requesting
  the restores, waiting, and downloading each key under the output directory. The body of
  \<open>__main__\<close> does the last step only, and on the names as they are read: whatever the
  frame list, the services and the state, the calls the program makes are the making of
  directories, downloads and printing, each download is of a name of the frame list as
  the key, to the path of that name under the output directory, and when the program
  ends normally it has downloaded exactly the names of the list. No restore request, no
  status poll and no search is among its calls.
\<close>

theorem main_only_downloads:
  assumes "main sys s3 a s = (res, s')"
  shows "\<exists>evs. trace s' = trace s @ evs
       \<and> list_all (download_step (bucket a) (output_dir a)
                     (read_col1 sys (frame_list a) (world s))) evs
       \<and> (res = Inr () \<longrightarrow>
             downloads evs = map (\<lambda>k. (bucket a, k, path_join (output_dir a) k))
                               (read_col1 sys (frame_list a) (world s)))"
  using assms download_thawed_files_trace[of sys "read_col1 sys (frame_list a) (world s)"
          "output_dir a" "bucket a" s3 s res s' "read_col1 sys (frame_list a) (world s)"]
  by (simp add: main_def Let_def)

theorem main_only_downloads_witness:
  "main sample_system (sample_s3 []) sample_args start
   = (Inr (),
      \<lparr>world = (),
       trace = [MakeDirs ''out/'' None,
                DownloadFile ''test-bucket'' ''coj0m405-kb24-20200101-0001-00.fits''
                  ''out/coj0m405-kb24-20200101-0001-00.fits'' None,
                Print ''Downloaded coj0m405-kb24-20200101-0001-00.fits'',
                MakeDirs ''out/'' None,
                DownloadFile ''test-bucket'' ''coj0m405-kb24-20200101-0002-00.fits''
                  ''out/coj0m405-kb24-20200101-0002-00.fits'' None,
                Print ''Downloaded coj0m405-kb24-20200101-0002-00.fits'']\<rparr>)
   \<and> make_s3_prefix_from_filename ''coj0m405-kb24-20200101-0001-00.fits''
       = Inr ''coj/kb24/20200101/raw/coj0m405-kb24-20200101-0001-00.fits.fz''
   \<and> list_all (download_step ''test-bucket'' ''out''
                 [''coj0m405-kb24-20200101-0001-00.fits'',
                  ''coj0m405-kb24-20200101-0002-00.fits''])
        (trace (snd (main sample_system (sample_s3 []) sample_args start)))"
proof -
  let ?evs = "[MakeDirs ''out/'' None,
                DownloadFile ''test-bucket'' ''coj0m405-kb24-20200101-0001-00.fits''
                  ''out/coj0m405-kb24-20200101-0001-00.fits'' None,
                Print ''Downloaded coj0m405-kb24-20200101-0001-00.fits'',
                MakeDirs ''out/'' None,
                DownloadFile ''test-bucket'' ''coj0m405-kb24-20200101-0002-00.fits''
                  ''out/coj0m405-kb24-20200101-0002-00.fits'' None,
                Print ''Downloaded coj0m405-kb24-20200101-0002-00.fits'']"
  have h: "main sample_system (sample_s3 []) sample_args start
           = (Inr (), \<lparr>world = (), trace = ?evs\<rparr>)"
    by code_simp
  have p: "make_s3_prefix_from_filename ''coj0m405-kb24-20200101-0001-00.fits''
             = Inr ''coj/kb24/20200101/raw/coj0m405-kb24-20200101-0001-00.fits.fz''"
    by code_simp
  have f: "read_col1 sample_system (frame_list sample_args) (world start)
             = [''coj0m405-kb24-20200101-0001-00.fits'',
                ''coj0m405-kb24-20200101-0002-00.fits'']"
    by (simp add: sample_system_def)
  have b: "bucket sample_args = ''test-bucket''" "output_dir sample_args = ''out''"
    by (simp_all add: sample_args_def)
  from main_only_downloads[OF h]
  have "list_all (download_step ''test-bucket'' ''out''
                 [''coj0m405-kb24-20200101-0001-00.fits'',
                  ''coj0m405-kb24-20200101-0002-00.fits'']) ?evs"
  proof (elim exE conjE)
    fix evs
    assume tr: "trace \<lparr>world = (), trace = ?evs\<rparr> = trace start @ evs"
       and st: "list_all (download_step (bucket sample_args) (output_dir sample_args)
                           (read_col1 sample_system (frame_list sample_args) (world start))) evs"
    from tr have "evs = ?evs" by (simp add: start_def)
    with st show ?thesis unfolding f b by simp
  qed
  then have "list_all (download_step ''test-bucket'' ''out''
                 [''coj0m405-kb24-20200101-0001-00.fits'',
                  ''coj0m405-kb24-20200101-0002-00.fits''])
               (trace (snd (main sample_system (sample_s3 []) sample_args start)))"
    unfolding h by simp
  with h p show ?thesis
    by (intro conjI)
qed

end
